theory Spec2Isabelle
  imports Complex_Main
begin

section \<open>Coherent Point Drift: the EM engine of probreg/cpd.py\<close>

text \<open>
  The module registers a source point set onto a target point set by
  Expectation-Maximization. This theory embeds its expectation step, its three
  maximization steps, the iteration driver and the entry point.

  Conventions of the embedding.
  \<^item> A NumPy \<open>float64\<close> inside a computation is a real number. NumPy raises
    nothing where it produces \<open>nan\<close> or \<open>\<plusminus>inf\<close> (division by zero, logarithm
    of a non-positive number), and the initializers and the maximization
    steps return such values like any other. The scalars of their results
    (variance, objective, scale and translation of the rigid transformation)
    therefore have the type \<open>float64\<close>: a real number, or \<open>NanOrInf\<close>, which
    stands for \<open>nan\<close>, \<open>+inf\<close> or \<open>-inf\<close> without telling them apart.
  \<^item> Inside the expectation step, and where a value that is no real number
    would enter a matrix handed to a collaborator, the model stops with
    \<open>NonFinite\<close> and follows the code no further.
  \<^item> A one-dimensional array is a list, a two-dimensional array a list of rows.
    A list of rows cannot tell a \<open>0 \<times> D\<close> array from a \<open>0 \<times> 0\<close> one; statements
    about shapes are made for non-empty point sets.
  \<^item> Python exceptions are values of type \<open>error\<close>; a function that can raise
    returns \<open>error + 'a\<close>.
  \<^item> The collaborators that are imported by the module but defined elsewhere
    (the kernel transform, the transformation classes, \<open>math_utils\<close>, and
    \<open>numpy.linalg.svd\<close> and \<open>solve\<close>) are parameters of the model.
\<close>

subsection \<open>Arrays and errors\<close>

type_synonym vec = "real list"
type_synonym mat = "real list list"

datatype ndarray = Array1 vec | Array2 mat

datatype error =
    ValueError | AssertionError | IndexError | AttributeError | TypeError
  | ZeroDivisionError | LinAlgError | NonFinite

definition and_then :: "error + 'a \<Rightarrow> ('a \<Rightarrow> error + 'b) \<Rightarrow> error + 'b" where
  "and_then m f = (case m of Inl e \<Rightarrow> Inl e | Inr x \<Rightarrow> f x)"

fun ndim_of :: "ndarray \<Rightarrow> nat" where
  "ndim_of (Array1 v) = 1"
| "ndim_of (Array2 m) = 2"

definition shape0 :: "'a list \<Rightarrow> nat" where
  "shape0 m = length m"

definition shape1 :: "mat \<Rightarrow> nat" where
  "shape1 m = (case m of [] \<Rightarrow> 0 | r # rs \<Rightarrow> length r)"

fun shape0_of :: "ndarray \<Rightarrow> nat" where
  "shape0_of (Array1 v) = length v"
| "shape0_of (Array2 m) = length m"

text \<open>A well-shaped \<open>n \<times> d\<close> array.\<close>

definition is_mat :: "nat \<Rightarrow> nat \<Rightarrow> mat \<Rightarrow> bool" where
  "is_mat n d m \<longleftrightarrow> length m = n \<and> list_all (\<lambda>r. length r = d) m"

subsection \<open>The NumPy operations the module uses\<close>

text \<open>
  \<open>np.dot\<close>, \<open>np.outer\<close>, \<open>np.trace\<close>, \<open>np.sum\<close>, \<open>.T\<close> and the operations between
  a matrix and a vector are total list functions here. They compute what NumPy
  computes whenever the operand shapes fit, which is the case in both
  maximization steps that use them as soon as the arguments are well shaped
  (source \<open>N \<times> D\<close>, target \<open>M \<times> D\<close>, \<open>pt1\<close> of length \<open>M\<close>, \<open>p1\<close> of length
  \<open>N\<close>, \<open>px\<close> of shape \<open>N \<times> D\<close>). Elementwise operations between two
  two-dimensional arrays follow NumPy's broadcasting rule, including its
  \<open>ValueError\<close>: their operands have different shapes even for well-shaped
  arguments.
\<close>

definition col :: "nat \<Rightarrow> mat \<Rightarrow> vec" where
  "col j m = map (\<lambda>r. r ! j) m"

definition np_transpose :: "mat \<Rightarrow> mat" where
  "np_transpose m = map (\<lambda>j. col j m) [0..<shape1 m]"

definition vdot :: "vec \<Rightarrow> vec \<Rightarrow> real" where
  "vdot x y = sum_list (map2 (*) x y)"

definition np_dot :: "mat \<Rightarrow> mat \<Rightarrow> mat" where
  "np_dot a b = map (\<lambda>r. map (\<lambda>j. vdot r (col j b)) [0..<shape1 b]) a"

definition mat_vec :: "mat \<Rightarrow> vec \<Rightarrow> vec" where
  "mat_vec a v = map (\<lambda>r. vdot r v) a"

definition vec_mat :: "vec \<Rightarrow> mat \<Rightarrow> vec" where
  "vec_mat v a = map (\<lambda>j. vdot v (col j a)) [0..<shape1 a]"

definition outer :: "vec \<Rightarrow> vec \<Rightarrow> mat" where
  "outer x y = map (\<lambda>a. map (\<lambda>b. a * b) y) x"

definition trace :: "mat \<Rightarrow> real" where
  "trace m = sum_list (map (\<lambda>i. m ! i ! i) [0..<min (length m) (shape1 m)])"

definition sum_axis0 :: "mat \<Rightarrow> vec" where
  "sum_axis0 m = map (\<lambda>j. sum_list (col j m)) [0..<shape1 m]"

text \<open>A matrix combined with a vector: the vector is laid along every row.\<close>

definition with_rows :: "(real \<Rightarrow> real \<Rightarrow> real) \<Rightarrow> mat \<Rightarrow> vec \<Rightarrow> mat" where
  "with_rows f m v = map (\<lambda>r. map2 f r v) m"

definition mat_sub :: "mat \<Rightarrow> mat \<Rightarrow> mat" where
  "mat_sub a b = map2 (map2 (-)) a b"

definition vec_sub :: "vec \<Rightarrow> vec \<Rightarrow> vec" where
  "vec_sub x y = map2 (-) x y"

definition smul :: "real \<Rightarrow> mat \<Rightarrow> mat" where
  "smul s m = map (map ((*) s)) m"

definition np_diag :: "vec \<Rightarrow> mat" where
  "np_diag v = map (\<lambda>i. map (\<lambda>j. if i = j then v ! i else 0) [0..<length v]) [0..<length v]"

definition np_identity :: "nat \<Rightarrow> mat" where
  "np_identity n = map (\<lambda>i. map (\<lambda>j. if i = j then 1 else 0) [0..<n]) [0..<n]"

text \<open>
  NumPy broadcasting of an elementwise operation between two-dimensional
  arrays: along each axis the two extents must be equal or one of them must
  be 1, and an axis of extent 1 is repeated.
\<close>

definition broadcast2 :: "(real \<Rightarrow> real \<Rightarrow> real) \<Rightarrow> mat \<Rightarrow> mat \<Rightarrow> error + mat" where
  "broadcast2 f a b =
     (let ra = length a; rb = length b; ca = shape1 a; cb = shape1 b in
      if (ra = rb \<or> ra = 1 \<or> rb = 1) \<and> (ca = cb \<or> ca = 1 \<or> cb = 1) then
        Inr (map (\<lambda>i. map (\<lambda>j. f (a ! (if ra = 1 then 0 else i) ! (if ca = 1 then 0 else j))
                                   (b ! (if rb = 1 then 0 else i) ! (if cb = 1 then 0 else j)))
                        [0..<(if ca = 1 then cb else ca)])
                 [0..<(if ra = 1 then rb else ra)])
      else Inl ValueError)"

text \<open>
  \<open>x ** y\<close> for a base that is not negative (a negative variance has been
  turned into \<open>NonFinite\<close> before the power is taken).
\<close>

definition float_power :: "real \<Rightarrow> real \<Rightarrow> real" where
  "float_power x y = (if x = 0 then (if y = 0 then 1 else 0) else x powr y)"

text \<open>\<open>np.finfo(np.float32).eps\<close>, the machine epsilon of single precision.\<close>

definition float32_eps :: real where
  "float32_eps = 1 / 2 ^ 23"

text \<open>
  \<open>np.finfo(np.float32).tiny\<close>, the smallest positive normal number of single
  precision; subnormal numbers are smaller still.
\<close>

definition float32_tiny :: real where
  "float32_tiny = 1 / 2 ^ 126"

subsection \<open>The determinant\<close>

text \<open>
  \<open>np.linalg.det\<close> is the determinant. It is defined on an \<open>n \<times> n\<close> table of
  entries by expansion along the last row; \<open>skip j\<close> enumerates the columns
  other than \<open>j\<close>.
\<close>

definition skip :: "nat \<Rightarrow> nat \<Rightarrow> nat" where
  "skip j k = (if k < j then k else Suc k)"

primrec det_fun :: "nat \<Rightarrow> (nat \<Rightarrow> nat \<Rightarrow> real) \<Rightarrow> real" where
  "det_fun 0 A = 1"
| "det_fun (Suc n) A =
     (\<Sum>j\<le>n. (- 1) ^ (n + j) * A n j * det_fun n (\<lambda>i k. A i (skip j k)))"

definition entries :: "mat \<Rightarrow> nat \<Rightarrow> nat \<Rightarrow> real" where
  "entries m = (\<lambda>i j. m ! i ! j)"

definition linalg_det :: "mat \<Rightarrow> real" where
  "linalg_det m = det_fun (length m) (entries m)"

subsection \<open>Floating-point scalars that need not be real numbers\<close>

datatype float64 = Finite real | NanOrInf

text \<open>
  Sum, difference and product: the result is no real number as soon as one
  operand is none (\<open>inf - inf\<close> and \<open>inf * 0\<close> are \<open>nan\<close>).
\<close>

fun f_add :: "float64 \<Rightarrow> float64 \<Rightarrow> float64" where
  "f_add (Finite a) (Finite b) = Finite (a + b)"
| "f_add _ _ = NanOrInf"

fun f_sub :: "float64 \<Rightarrow> float64 \<Rightarrow> float64" where
  "f_sub (Finite a) (Finite b) = Finite (a - b)"
| "f_sub _ _ = NanOrInf"

fun f_mul :: "float64 \<Rightarrow> float64 \<Rightarrow> float64" where
  "f_mul (Finite a) (Finite b) = Finite (a * b)"
| "f_mul _ _ = NanOrInf"

text \<open>
  \<open>x / y\<close> for a real divisor: NumPy divides by zero without raising, the
  quotient is then \<open>nan\<close> or \<open>\<plusminus>inf\<close>.
\<close>

fun np_divide :: "float64 \<Rightarrow> real \<Rightarrow> float64" where
  "np_divide (Finite a) y = (if y = 0 then NanOrInf else Finite (a / y))"
| "np_divide NanOrInf y = NanOrInf"

text \<open>
  \<open>np.log\<close>: \<open>-inf\<close> at 0 and \<open>nan\<close> at a negative number, without raising.
\<close>

definition np_log :: "real \<Rightarrow> float64" where
  "np_log x = (if 0 < x then Finite (ln x) else NanOrInf)"

text \<open>
  The objective of the rigid and of the affine step,
  \<open>q = num / (2.0 * sigma2)\<close> followed by \<open>q += k * np.log(sigma2)\<close>, for a
  real factor \<open>k\<close>. It is a real number for a real numerator and a positive
  real variance only:
  \<^item> at \<open>sigma2 = 0\<close> the quotient is \<open>nan\<close> or \<open>\<plusminus>inf\<close> and the logarithm
    \<open>-inf\<close>, at \<open>sigma2 < 0\<close> the logarithm is \<open>nan\<close>;
  \<^item> at \<open>sigma2 = +inf\<close> the second summand is \<open>k * inf\<close>, at \<open>-inf\<close> and at
    \<open>nan\<close> the logarithm is \<open>nan\<close>;
  \<^item> a numerator that is no real number gives a quotient that is none.
\<close>

fun objective :: "float64 \<Rightarrow> float64 \<Rightarrow> real \<Rightarrow> float64" where
  "objective (Finite num) (Finite sigma2) k =
     (if 0 < sigma2 then Finite (num / (2 * sigma2) + k * ln sigma2) else NanOrInf)"
| "objective _ _ k = NanOrInf"

text \<open>
  The test \<open>abs(q_new - q) < tol\<close> of the driver: a comparison with \<open>nan\<close> or
  \<open>inf\<close> on the left is false.
\<close>

fun abs_diff_less :: "float64 \<Rightarrow> float64 \<Rightarrow> real \<Rightarrow> bool" where
  "abs_diff_less (Finite a) (Finite b) tol \<longleftrightarrow> \<bar>a - b\<bar> < tol"
| "abs_diff_less _ _ tol \<longleftrightarrow> False"

subsection \<open>Results of the two steps, transformations\<close>

datatype estep_result = EstepResult vec vec mat real

datatype transformation =
    RigidTransformation mat "float64 list" float64
  | AffineTransformation mat vec
  | NonRigidTransformation mat ndarray

datatype mstep_result =
  MstepResult (transformation_of: transformation) (sigma2_of: float64) (q_of: float64)

text \<open>
  Modelled from the spec: the rigid transformation class is not among the
  sources; built from a rotation and a translation only, it has unit scale
  ("zero translation/displacement, unit scale, identity rotation").
\<close>

definition default_scale :: real where
  "default_scale = 1"

subsection \<open>The collaborators\<close>

text \<open>
  \<open>compute gt ref h query weights\<close> stands for
  \<open>GaussTransform(ref, h).compute(query, weights)\<close> with no weights or a
  one-dimensional weight array, \<open>compute2\<close> for the call with a two-dimensional
  weight array (one row of weights per output row).
\<close>

record gauss_transform =
  compute :: "mat \<Rightarrow> real \<Rightarrow> mat \<Rightarrow> vec option \<Rightarrow> vec"
  compute2 :: "mat \<Rightarrow> real \<Rightarrow> mat \<Rightarrow> mat \<Rightarrow> mat"

record collaborators =
  gauss :: gauss_transform
  msn_all_combination :: "ndarray \<Rightarrow> ndarray \<Rightarrow> error + real"
  gaussian_kernel :: "ndarray \<Rightarrow> real \<Rightarrow> mat"
  transform :: "transformation \<Rightarrow> ndarray \<Rightarrow> error + ndarray"
  linalg_svd :: "mat \<Rightarrow> error + (mat \<times> vec \<times> mat)"
  linalg_solve :: "mat \<Rightarrow> mat \<Rightarrow> error + mat"

subsection \<open>The expectation step\<close>

definition clamp_zeros :: "vec \<Rightarrow> vec" where
  "clamp_zeros kt1 = map (\<lambda>k. if k = 0 then float32_eps else k) kt1"

definition expectation_step ::
  "gauss_transform \<Rightarrow> ndarray \<Rightarrow> ndarray \<Rightarrow> real \<Rightarrow> real \<Rightarrow> error + estep_result" where
  "expectation_step gt t_source target sigma2 w =
     (case (t_source, target) of
        (Array2 ts, Array2 x) \<Rightarrow>
          (let ndim = shape1 ts in
           if 1 - w = 0 then Inl ZeroDivisionError
           else if shape0 x = 0 then Inl ZeroDivisionError
           else if sigma2 < 0 then Inl NonFinite
           else
             let h = sqrt (2 * sigma2);
                 c0 = float_power (2 * pi * sigma2) (real ndim * 0.5);
                 c = c0 * (w / (1 - w) * real (shape0 ts) / real (shape0 x));
                 kt1 = clamp_zeros (compute gt ts h x None)
             in
               if \<exists>k\<in>set kt1. k + c = 0 then Inl NonFinite
               else
                 let a = map (\<lambda>k. 1 / (k + c)) kt1;
                     pt1 = map (\<lambda>v. 1 - c * v) a;
                     p1 = compute gt x h ts (Some a)
                 in
                   and_then (broadcast2 (*) (replicate ndim a) (np_transpose x))
                     (\<lambda>wts.
                        let px = np_transpose (compute2 gt x h ts wts)
                        in Inr (EstepResult pt1 p1 px (sum_list p1))))
      | _ \<Rightarrow> Inl AssertionError)"

subsection \<open>The maximization steps\<close>

text \<open>
  The previous variance \<open>sigma2_p\<close> is an optional argument (\<open>None\<close> by
  default); the rigid and the affine step never read it.
\<close>

text \<open>
  The rigid step. Three places need a remark.
  \<^item> With \<open>n_p = 0\<close> the centroids are \<open>nan\<close> or \<open>\<plusminus>inf\<close>, and with them the
    matrix \<open>a\<close>, on which \<open>np.linalg.svd\<close> raises \<open>LinAlgError\<close>.
  \<^item> \<open>c[-1]\<close> raises \<open>IndexError\<close> when \<open>ndim\<close> is 0.
  \<^item> Nothing guards the divisions by \<open>tr_yp1y\<close> and by \<open>n_p * ndim\<close> or the
    logarithm: the step returns its result whatever \<open>scale\<close>, \<open>sigma2\<close> and
    \<open>q\<close> have become.
\<close>

definition rigid_maximization_step ::
  "(mat \<Rightarrow> error + (mat \<times> vec \<times> mat)) \<Rightarrow> mat \<Rightarrow> mat \<Rightarrow> estep_result \<Rightarrow> real option
     \<Rightarrow> error + mstep_result" where
  "rigid_maximization_step svd source target estep_res sigma2_p =
     (case estep_res of EstepResult pt1 p1 px n_p \<Rightarrow>
        let ndim = shape1 source in
        if n_p = 0 then Inl LinAlgError
        else
          let mu_x = map (\<lambda>s. s / n_p) (sum_axis0 px);
              mu_y = map (\<lambda>s. s / n_p) (mat_vec (np_transpose source) p1);
              target_hat = with_rows (-) target mu_x;
              source_hat = with_rows (-) source mu_y;
              a = mat_sub (np_dot (np_transpose px) source_hat)
                          (outer mu_x (vec_mat p1 source_hat))
          in
            and_then (svd a) (\<lambda>(u, s, vh).
              if ndim = 0 then Inl IndexError
              else
                let c = (replicate ndim 1)[ndim - 1 := linalg_det (np_dot u vh)];
                    rot = np_dot (with_rows (*) u c) vh;
                    tr_atr = trace (np_dot (np_transpose a) rot);
                    tr_yp1y = trace (np_dot (with_rows (*) (np_transpose source_hat) p1)
                                            source_hat);
                    scale = np_divide (Finite tr_atr) tr_yp1y;
                    t = map2 f_sub (map Finite mu_x)
                          (map (\<lambda>v. f_mul scale (Finite v)) (mat_vec rot mu_y));
                    tr_xp1x = trace (np_dot (with_rows (*) (np_transpose target_hat) pt1)
                                            target_hat);
                    sigma2 = np_divide (f_sub (Finite tr_xp1x) (f_mul scale (Finite tr_atr)))
                               (n_p * real ndim);
                    q = objective
                          (f_add (f_sub (Finite tr_xp1x)
                                    (f_mul (f_mul (Finite 2) scale) (Finite tr_atr)))
                             (f_mul (f_mul scale scale) (Finite tr_yp1y)))
                          sigma2 (real ndim * n_p * 0.5)
                in Inr (MstepResult (RigidTransformation rot t scale) sigma2 q)))"

text \<open>
  The affine step. With \<open>n_p = 0\<close> the matrices handed to \<open>np.linalg.solve\<close>
  hold \<open>nan\<close> or \<open>\<plusminus>inf\<close>, and the model stops. Nothing guards the division by
  \<open>n_p * ndim\<close> or the logarithm.
\<close>

definition affine_maximization_step ::
  "(mat \<Rightarrow> mat \<Rightarrow> error + mat) \<Rightarrow> mat \<Rightarrow> mat \<Rightarrow> estep_result \<Rightarrow> real option
     \<Rightarrow> error + mstep_result" where
  "affine_maximization_step solve source target estep_res sigma2_p =
     (case estep_res of EstepResult pt1 p1 px n_p \<Rightarrow>
        let ndim = shape1 source in
        if n_p = 0 then Inl NonFinite
        else
          let mu_x = map (\<lambda>s. s / n_p) (sum_axis0 px);
              mu_y = map (\<lambda>s. s / n_p) (mat_vec (np_transpose source) p1);
              target_hat = with_rows (-) target mu_x;
              source_hat = with_rows (-) source mu_y;
              a = mat_sub (np_dot (np_transpose px) source_hat)
                          (outer mu_x (vec_mat p1 source_hat));
              yp1y = np_dot (with_rows (*) (np_transpose source_hat) p1) source_hat
          in
            and_then (solve (np_transpose yp1y) (np_transpose a)) (\<lambda>bt.
              let b = np_transpose bt;
                  t = vec_sub mu_x (mat_vec b mu_y);
                  tr_xp1x = trace (np_dot (with_rows (*) (np_transpose target_hat) pt1)
                                          target_hat);
                  tr_xpyb = trace (np_dot a (np_transpose b));
                  sigma2 = np_divide (Finite (tr_xp1x - tr_xpyb)) (n_p * real ndim);
                  tr_ab = trace (np_dot a (np_transpose b));
                  q = objective (Finite (tr_xp1x - 2 * tr_ab + tr_xpyb)) sigma2
                        (real ndim * n_p * 0.5)
              in Inr (MstepResult (AffineTransformation b t) sigma2 q)))"

text \<open>
  The non-rigid step. With a zero in \<open>p1\<close> the matrix \<open>dp1_inv\<close> holds \<open>inf\<close>
  and enters both arguments of \<open>np.linalg.solve\<close>: the model stops. Nothing
  guards the division by \<open>n_p * ndim\<close>.
\<close>

definition nonrigid_maximization_step ::
  "(mat \<Rightarrow> mat \<Rightarrow> error + mat) \<Rightarrow> mat \<Rightarrow> mat \<Rightarrow> estep_result \<Rightarrow> real option
     \<Rightarrow> mat \<Rightarrow> real \<Rightarrow> error + mstep_result" where
  "nonrigid_maximization_step solve source target estep_res sigma2_p g lmd =
     (case estep_res of EstepResult pt1 p1 px n_p \<Rightarrow>
        let ndim = shape1 source in
        if \<exists>v\<in>set p1. v = 0 then Inl NonFinite
        else
          let dp1_inv = np_diag (map (\<lambda>v. 1 / v) p1) in
          (case sigma2_p of
             None \<Rightarrow> Inl TypeError
           | Some s2p \<Rightarrow>
               and_then (broadcast2 (+) g (smul (lmd * s2p) dp1_inv)) (\<lambda>lhs.
               and_then (broadcast2 (*) dp1_inv px) (\<lambda>dpx.
               and_then (broadcast2 (-) dpx source) (\<lambda>rhs.
               and_then (solve lhs rhs) (\<lambda>w.
               and_then (broadcast2 (+) source (np_dot g w)) (\<lambda>t.
                 let tr_xp1x = trace (np_dot (with_rows (*) (np_transpose target) pt1) target);
                     tr_pxtt = trace (np_dot (np_transpose px) t);
                     tr_ttp1t = trace (np_dot (with_rows (*) (np_transpose t) p1) t);
                     sigma2 = np_divide (Finite (tr_xp1x - 2 * tr_pxtt + tr_ttp1t))
                                (n_p * real ndim)
                 in Inr (MstepResult (NonRigidTransformation g (Array2 w))
                                     sigma2 sigma2))))))))"

subsection \<open>The registrars\<close>

text \<open>
  A registrar holds its source (\<open>None\<close> until one is given); the non-rigid
  registrar also holds \<open>beta\<close>, \<open>lmd\<close> and the kernel matrix \<open>_g\<close>.
\<close>

datatype cpd =
    RigidCPD "ndarray option"
  | AffineCPD "ndarray option"
  | NonRigidCPD "ndarray option" real real "mat option"

fun source_of :: "cpd \<Rightarrow> ndarray option" where
  "source_of (RigidCPD src) = src"
| "source_of (AffineCPD src) = src"
| "source_of (NonRigidCPD src beta lmd g) = src"

fun g_of :: "cpd \<Rightarrow> mat option" where
  "g_of (NonRigidCPD src beta lmd g) = g"
| "g_of _ = None"

text \<open>\<open>NonRigidCPD.__init__\<close>.\<close>

definition NonRigidCPD_init ::
  "(ndarray \<Rightarrow> real \<Rightarrow> mat) \<Rightarrow> ndarray option \<Rightarrow> real \<Rightarrow> real \<Rightarrow> cpd" where
  "NonRigidCPD_init gk source beta lmd =
     NonRigidCPD source beta lmd
       (case source of None \<Rightarrow> None | Some s \<Rightarrow> Some (gk s beta))"

text \<open>\<open>set_source\<close>: the base class stores the source, the non-rigid class
  stores it and computes the kernel matrix again.\<close>

fun set_source :: "(ndarray \<Rightarrow> real \<Rightarrow> mat) \<Rightarrow> cpd \<Rightarrow> ndarray \<Rightarrow> cpd" where
  "set_source gk (RigidCPD src) source = RigidCPD (Some source)"
| "set_source gk (AffineCPD src) source = AffineCPD (Some source)"
| "set_source gk (NonRigidCPD src beta lmd g) source =
     NonRigidCPD (Some source) beta lmd (Some (gk source beta))"

text \<open>
  \<open>_initialize\<close>. Reading \<open>shape[1]\<close> of a one-dimensional source raises
  \<open>IndexError\<close>, reading \<open>shape\<close> of \<open>None\<close> raises \<open>AttributeError\<close>, both
  before the initial variance is computed. The kernel matrix of a non-rigid
  registrar is \<open>None\<close> only while its source is. Nothing guards the logarithm
  of the initial variance.
\<close>

fun initial_transformation :: "cpd \<Rightarrow> nat \<Rightarrow> nat \<Rightarrow> error + transformation" where
  "initial_transformation (RigidCPD src) ndim n =
     Inr (RigidTransformation (np_identity ndim) (replicate ndim (Finite 0))
            (Finite default_scale))"
| "initial_transformation (AffineCPD src) ndim n =
     Inr (AffineTransformation (np_identity ndim) (replicate ndim 0))"
| "initial_transformation (NonRigidCPD src beta lmd g) ndim n =
     (case g of None \<Rightarrow> Inl TypeError
      | Some gm \<Rightarrow> Inr (NonRigidTransformation gm (Array1 (replicate n 0))))"

definition initialize :: "collaborators \<Rightarrow> cpd \<Rightarrow> ndarray \<Rightarrow> error + mstep_result" where
  "initialize env cpd target =
     (case source_of cpd of
        None \<Rightarrow> Inl AttributeError
      | Some (Array1 v) \<Rightarrow> Inl IndexError
      | Some (Array2 s) \<Rightarrow>
          (let ndim = shape1 s in
           and_then (msn_all_combination env (Array2 s) target) (\<lambda>sigma2.
             let q = f_add (Finite 1)
                       (f_mul (Finite (real (shape0_of target) * real ndim * 0.5))
                          (np_log sigma2))
             in
               and_then (initial_transformation cpd ndim (shape0 s)) (\<lambda>tf.
                 Inr (MstepResult tf (Finite sigma2) q)))))"

text \<open>
  \<open>maximization_step\<close>: the registrar passes its own source (and, non-rigid,
  its kernel matrix and \<open>lmd\<close>) to its static step. The driver calls it after
  the expectation step has asserted that the target is two-dimensional.
\<close>

definition maximization_step ::
  "collaborators \<Rightarrow> cpd \<Rightarrow> mat \<Rightarrow> estep_result \<Rightarrow> real option \<Rightarrow> error + mstep_result" where
  "maximization_step env cpd target estep_res sigma2_p =
     (case source_of cpd of
        None \<Rightarrow> Inl AttributeError
      | Some (Array1 v) \<Rightarrow> Inl IndexError
      | Some (Array2 s) \<Rightarrow>
          (case cpd of
             RigidCPD src \<Rightarrow>
               rigid_maximization_step (linalg_svd env) s target estep_res sigma2_p
           | AffineCPD src \<Rightarrow>
               affine_maximization_step (linalg_solve env) s target estep_res sigma2_p
           | NonRigidCPD src beta lmd g \<Rightarrow>
               (case g of None \<Rightarrow> Inl TypeError
                | Some gm \<Rightarrow>
                    nonrigid_maximization_step (linalg_solve env) s target estep_res
                      sigma2_p gm lmd)))"

subsection \<open>The driver\<close>

text \<open>
  The expectation step at a variance that is no real number: the assertion
  and the two divisions that can raise come first as before, then \<open>h\<close> and
  \<open>c\<close> are \<open>nan\<close> or \<open>inf\<close> and the model stops.
\<close>

definition expectation_step_not_real :: "ndarray \<Rightarrow> ndarray \<Rightarrow> real \<Rightarrow> error" where
  "expectation_step_not_real t_source target w =
     (case (t_source, target) of
        (Array2 ts, Array2 x) \<Rightarrow>
          (if 1 - w = 0 then ZeroDivisionError
           else if shape0 x = 0 then ZeroDivisionError
           else NonFinite)
      | _ \<Rightarrow> AssertionError)"

text \<open>One pass of the loop body, up to the new result (lines 69 to 71).\<close>

definition em_iteration ::
  "collaborators \<Rightarrow> cpd \<Rightarrow> ndarray \<Rightarrow> real \<Rightarrow> mstep_result \<Rightarrow> error + mstep_result" where
  "em_iteration env cpd target w res =
     (case source_of cpd of
        None \<Rightarrow> Inl AttributeError
      | Some src \<Rightarrow>
          and_then (transform env (transformation_of res) src) (\<lambda>t_source.
            case sigma2_of res of
              NanOrInf \<Rightarrow> Inl (expectation_step_not_real t_source target w)
            | Finite sigma2 \<Rightarrow>
                and_then (expectation_step (gauss env) t_source target sigma2 w)
                  (\<lambda>estep_res.
                     case target of
                       Array1 v \<Rightarrow> Inl AssertionError
                     | Array2 x \<Rightarrow> maximization_step env cpd x estep_res (Some sigma2))))"

text \<open>
  The loop \<open>for _ in range(max_iteration)\<close>, by recursion on the number of
  passes that remain. Next to the result it returns how many passes were
  started, which the source does not record.
\<close>

fun em_loop ::
  "collaborators \<Rightarrow> cpd \<Rightarrow> ndarray \<Rightarrow> real \<Rightarrow> real \<Rightarrow> nat \<Rightarrow> mstep_result \<Rightarrow> float64
     \<Rightarrow> error + (mstep_result \<times> nat)" where
  "em_loop env cpd target w tol 0 res q = Inr (res, 0)"
| "em_loop env cpd target w tol (Suc k) res q =
     and_then (em_iteration env cpd target w res) (\<lambda>res'.
       if abs_diff_less (q_of res') q tol then Inr (res', 1)
       else and_then (em_loop env cpd target w tol k res' (q_of res'))
              (\<lambda>(r, i). Inr (r, Suc i)))"

definition registration_counted ::
  "collaborators \<Rightarrow> cpd \<Rightarrow> ndarray \<Rightarrow> real \<Rightarrow> int \<Rightarrow> real \<Rightarrow> error + (mstep_result \<times> nat)" where
  "registration_counted env cpd target w max_iteration tol =
     and_then (initialize env cpd target) (\<lambda>res.
       em_loop env cpd target w tol (nat max_iteration) res (q_of res))"

definition registration ::
  "collaborators \<Rightarrow> cpd \<Rightarrow> ndarray \<Rightarrow> real \<Rightarrow> int \<Rightarrow> real \<Rightarrow> error + mstep_result" where
  "registration env cpd target w max_iteration tol =
     and_then (registration_counted env cpd target w max_iteration tol)
       (\<lambda>(res, i). Inr res)"

subsection \<open>The entry point\<close>

text \<open>
  The keyword arguments \<open>**kargs\<close> are a list of names and values. The rigid
  and the affine constructor take none; the non-rigid one takes \<open>beta\<close> and
  \<open>lmd\<close>, both 2.0 unless given.
\<close>

definition kwarg :: "(string \<times> real) list \<Rightarrow> string \<Rightarrow> real \<Rightarrow> real" where
  "kwarg kargs name dflt = (case map_of kargs name of None \<Rightarrow> dflt | Some v \<Rightarrow> v)"

definition make_cpd ::
  "collaborators \<Rightarrow> string \<Rightarrow> ndarray \<Rightarrow> (string \<times> real) list \<Rightarrow> error + cpd" where
  "make_cpd env tf_type_name source kargs =
     (if tf_type_name = ''rigid'' then
        (if kargs = [] then Inr (RigidCPD (Some source)) else Inl TypeError)
      else if tf_type_name = ''affine'' then
        (if kargs = [] then Inr (AffineCPD (Some source)) else Inl TypeError)
      else if tf_type_name = ''nonrigid'' then
        (if list_all (\<lambda>(k, v). k = ''beta'' \<or> k = ''lmd'') kargs then
           Inr (NonRigidCPD_init (gaussian_kernel env) (Some source)
                  (kwarg kargs ''beta'' 2) (kwarg kargs ''lmd'' 2))
         else Inl TypeError)
      else Inl ValueError)"

definition registration_cpd ::
  "collaborators \<Rightarrow> ndarray \<Rightarrow> ndarray \<Rightarrow> string \<Rightarrow> real \<Rightarrow> int \<Rightarrow> real
     \<Rightarrow> (string \<times> real) list \<Rightarrow> error + mstep_result" where
  "registration_cpd env source target tf_type_name w max_iteration tol kargs =
     and_then (make_cpd env tf_type_name source kargs) (\<lambda>cpd.
       registration env cpd target w max_iteration tol)"

subsection \<open>Stand-ins for the collaborators\<close>

text \<open>
  Modelled from the spec: the kernel transform (\<open>gauss_transform\<close> is not
  among the sources) "returns, for each query point, the sum over reference
  points of exp(-|query - reference|^2 / bandwidth^2)", each term multiplied by
  the weight of its reference point, weight 1 when no weights are given; with
  one weight row per output dimension it returns one such row of sums each.
\<close>

definition sqdist :: "vec \<Rightarrow> vec \<Rightarrow> real" where
  "sqdist x y = sum_list (map2 (\<lambda>a b. (a - b) ^ 2) x y)"

definition gauss_sum :: "mat \<Rightarrow> real \<Rightarrow> mat \<Rightarrow> vec option \<Rightarrow> vec" where
  "gauss_sum ref h query weights =
     map (\<lambda>qp. sum_list (map2 (\<lambda>r wt. wt * exp (- sqdist qp r / h ^ 2)) ref
                   (case weights of None \<Rightarrow> replicate (length ref) 1 | Some ws \<Rightarrow> ws)))
       query"

definition gauss_sum2 :: "mat \<Rightarrow> real \<Rightarrow> mat \<Rightarrow> mat \<Rightarrow> mat" where
  "gauss_sum2 ref h query wts = map (\<lambda>ws. gauss_sum ref h query (Some ws)) wts"

definition spec_gauss :: gauss_transform where
  "spec_gauss = \<lparr>compute = gauss_sum, compute2 = gauss_sum2\<rparr>"

text \<open>
  Modelled from the spec: the initial variance (\<open>math_utils\<close> is not among the
  sources), for a source of shape \<open>N \<times> D\<close> and a target of shape \<open>M \<times> D\<close>,
  is the sum "of all pairwise squared Euclidean distances between every source
  point and every target point, divided by (D N M)".
\<close>

definition msn_spec :: "mat \<Rightarrow> mat \<Rightarrow> real" where
  "msn_spec a b =
     sum_list (map (\<lambda>x. sum_list (map (\<lambda>y. sqdist x y) b)) a)
       / (real (shape1 a) * real (length a) * real (length b))"

text \<open>
  Modelled from the spec: the transformations (\<open>transformation\<close> is not among
  the sources) apply \<open>s R x + t\<close>, \<open>B x + t\<close> and \<open>x + G W\<close> to the points of
  a two-dimensional array. A rigid transformation whose scale or translation
  is no real number gives no real points, and the model stops.
\<close>

fun transform_spec :: "transformation \<Rightarrow> mat \<Rightarrow> error + mat" where
  "transform_spec (RigidTransformation rot t (Finite scale)) pts =
     (if list_all (\<lambda>v. v \<noteq> NanOrInf) t then
        Inr (map (\<lambda>x. map2 (+) (map (\<lambda>v. scale * v) (mat_vec rot x))
                          (map (\<lambda>v. case v of Finite r \<Rightarrow> r | NanOrInf \<Rightarrow> 0) t))
               pts)
      else Inl NonFinite)"
| "transform_spec (RigidTransformation rot t NanOrInf) pts = Inl NonFinite"
| "transform_spec (AffineTransformation b t) pts =
     Inr (map (\<lambda>x. map2 (+) (mat_vec b x) t) pts)"
| "transform_spec (NonRigidTransformation g (Array2 w)) pts =
     broadcast2 (+) pts (np_dot g w)"
| "transform_spec (NonRigidTransformation g (Array1 w)) pts =
     broadcast2 (+) pts [mat_vec g w]"

text \<open>
  The remaining stand-ins serve the examples only. The kernel matrix is the
  Gaussian kernel of the method; the decomposition and the solver handle
  diagonal matrices, for which the answer can be read off. The initial
  variance and the transformations are those of the specification where it
  describes them, on non-empty two-dimensional arrays. For other arguments the
  specification describes nothing; the stand-ins give up there, and no
  statement below rests on that case.
\<close>

fun msn_demo :: "ndarray \<Rightarrow> ndarray \<Rightarrow> error + real" where
  "msn_demo (Array2 a) (Array2 b) =
     (if real (shape1 a) * real (length a) * real (length b) = 0 then Inl NonFinite
      else Inr (msn_spec a b))"
| "msn_demo _ _ = Inl NonFinite"

fun transform_demo :: "transformation \<Rightarrow> ndarray \<Rightarrow> error + ndarray" where
  "transform_demo tf (Array2 pts) = and_then (transform_spec tf pts) (\<lambda>r. Inr (Array2 r))"
| "transform_demo tf (Array1 v) = Inl NonFinite"

fun kernel_demo :: "ndarray \<Rightarrow> real \<Rightarrow> mat" where
  "kernel_demo (Array2 pts) beta =
     map (\<lambda>x. map (\<lambda>y. exp (- sqdist x y / (2 * beta ^ 2))) pts) pts"
| "kernel_demo (Array1 v) beta = []"

definition diagonal :: "mat \<Rightarrow> bool" where
  "diagonal a \<longleftrightarrow> is_mat (length a) (length a) a \<and>
     list_all (\<lambda>i. list_all (\<lambda>j. i = j \<or> a ! i ! j = 0) [0..<length a]) [0..<length a]"

definition svd_demo :: "mat \<Rightarrow> error + (mat \<times> vec \<times> mat)" where
  "svd_demo a =
     (if diagonal a then
        Inr (np_diag (map (\<lambda>i. if a ! i ! i < 0 then - 1 else 1) [0..<length a]),
             map (\<lambda>i. \<bar>a ! i ! i\<bar>) [0..<length a],
             np_identity (length a))
      else Inl LinAlgError)"

definition solve_demo :: "mat \<Rightarrow> mat \<Rightarrow> error + mat" where
  "solve_demo a b =
     (if diagonal a \<and> list_all (\<lambda>i. a ! i ! i \<noteq> 0) [0..<length a] \<and> length b = length a
      then Inr (map (\<lambda>i. map (\<lambda>v. v / (a ! i ! i)) (b ! i)) [0..<length a])
      else Inl LinAlgError)"

definition demo_env :: collaborators where
  "demo_env = \<lparr>gauss = spec_gauss, msn_all_combination = msn_demo,
                gaussian_kernel = kernel_demo, transform = transform_demo,
                linalg_svd = svd_demo, linalg_solve = solve_demo\<rparr>"

subsection \<open>The expectation step as the specification words it\<close>



subsection \<open>Quantities shared by the rigid and the affine step\<close>

text \<open>
  The weighted centroids, the cross-covariance matrix \<open>a\<close>, the trace
  \<open>tr_xp1x\<close> and the matrix \<open>yp1y\<close>, as both steps compute them from their
  arguments (the rigid step takes the trace of \<open>yp1y\<close> only).
\<close>

definition centroid_x :: "mat \<Rightarrow> real \<Rightarrow> vec" where
  "centroid_x px n_p = map (\<lambda>s. s / n_p) (sum_axis0 px)"

definition centroid_y :: "mat \<Rightarrow> vec \<Rightarrow> real \<Rightarrow> vec" where
  "centroid_y source p1 n_p = map (\<lambda>s. s / n_p) (mat_vec (np_transpose source) p1)"

definition cross_covariance :: "mat \<Rightarrow> vec \<Rightarrow> mat \<Rightarrow> real \<Rightarrow> mat" where
  "cross_covariance source p1 px n_p =
     (let source_hat = with_rows (-) source (centroid_y source p1 n_p)
      in mat_sub (np_dot (np_transpose px) source_hat)
                 (outer (centroid_x px n_p) (vec_mat p1 source_hat)))"

definition tr_xp1x_of :: "mat \<Rightarrow> vec \<Rightarrow> mat \<Rightarrow> real \<Rightarrow> real" where
  "tr_xp1x_of target pt1 px n_p =
     (let target_hat = with_rows (-) target (centroid_x px n_p)
      in trace (np_dot (with_rows (*) (np_transpose target_hat) pt1) target_hat))"

definition yp1y_of :: "mat \<Rightarrow> vec \<Rightarrow> real \<Rightarrow> mat" where
  "yp1y_of source p1 n_p =
     (let source_hat = with_rows (-) source (centroid_y source p1 n_p)
      in np_dot (with_rows (*) (np_transpose source_hat) p1) source_hat)"

subsection \<open>Registrar states\<close>

text \<open>
  The non-rigid registrar built from \<open>src0\<close>, \<open>beta\<close> and \<open>lmd\<close> after the calls
  \<open>set_source\<close> on the sources \<open>srcs\<close>, in this order.
\<close>

definition nonrigid_after ::
  "(ndarray \<Rightarrow> real \<Rightarrow> mat) \<Rightarrow> ndarray option \<Rightarrow> real \<Rightarrow> real \<Rightarrow> ndarray list \<Rightarrow> cpd" where
  "nonrigid_after gk src0 beta lmd srcs =
     foldl (set_source gk) (NonRigidCPD_init gk src0 beta lmd) srcs"

text \<open>The kernel matrix of a non-rigid registrar is the kernel of its source.\<close>

definition kernel_consistent ::
  "(ndarray \<Rightarrow> real \<Rightarrow> mat) \<Rightarrow> real \<Rightarrow> real \<Rightarrow> cpd \<Rightarrow> bool" where
  "kernel_consistent gk beta lmd st \<longleftrightarrow>
     (case st of
        NonRigidCPD src b l g \<Rightarrow>
          b = beta \<and> l = lmd \<and> g = (case src of None \<Rightarrow> None | Some s \<Rightarrow> Some (gk s beta))
      | _ \<Rightarrow> False)"

subsection \<open>The sequence of estimates\<close>

text \<open>
  The estimate after \<open>k\<close> passes of the loop body, started from \<open>res\<close>, and the
  convergence test of the driver at pass \<open>j\<close>: the objectives after passes
  \<open>j - 1\<close> and \<open>j\<close> differ by less than the tolerance.
\<close>

fun em_results ::
  "collaborators \<Rightarrow> cpd \<Rightarrow> ndarray \<Rightarrow> real \<Rightarrow> nat \<Rightarrow> mstep_result \<Rightarrow> error + mstep_result" where
  "em_results env cpd target w 0 res = Inr res"
| "em_results env cpd target w (Suc k) res =
     and_then (em_iteration env cpd target w res) (em_results env cpd target w k)"

definition converged_at ::
  "collaborators \<Rightarrow> cpd \<Rightarrow> ndarray \<Rightarrow> real \<Rightarrow> real \<Rightarrow> mstep_result \<Rightarrow> nat \<Rightarrow> bool" where
  "converged_at env cpd target w tol res j \<longleftrightarrow>
     (case (em_results env cpd target w (j - 1) res, em_results env cpd target w j res) of
        (Inr a, Inr b) \<Rightarrow> abs_diff_less (q_of b) (q_of a) tol
      | _ \<Rightarrow> False)"

subsection \<open>A further stand-in\<close>

text \<open>A kernel transform all of whose responses have underflowed to zero.\<close>

definition underflow_gauss :: gauss_transform where
  "underflow_gauss =
     \<lparr>compute = (\<lambda>ref h query weights. replicate (length query) 0),
      compute2 = (\<lambda>ref h query wts. map (\<lambda>ws. replicate (length query) 0) wts)\<rparr>"

subsection \<open>Tables of entries\<close>

text \<open>
  The table \<open>A\<close> with column \<open>k\<close> replaced by \<open>v\<close>, and likewise for a row.
\<close>

definition setcol :: "(nat \<Rightarrow> nat \<Rightarrow> real) \<Rightarrow> nat \<Rightarrow> (nat \<Rightarrow> real) \<Rightarrow> nat \<Rightarrow> nat \<Rightarrow> real" where
  "setcol A k v = (\<lambda>i j. if j = k then v i else A i j)"

definition setrow :: "(nat \<Rightarrow> nat \<Rightarrow> real) \<Rightarrow> nat \<Rightarrow> (nat \<Rightarrow> real) \<Rightarrow> nat \<Rightarrow> nat \<Rightarrow> real" where
  "setrow A r v = (\<lambda>i j. if i = r then v j else A i j)"

text \<open>
  The identity table, and the product of two \<open>n \<times> n\<close> tables.
\<close>

definition ident :: "nat \<Rightarrow> nat \<Rightarrow> real" where
  "ident = (\<lambda>i j. if i = j then 1 else 0)"

definition mmul :: "nat \<Rightarrow> (nat \<Rightarrow> nat \<Rightarrow> real) \<Rightarrow> (nat \<Rightarrow> nat \<Rightarrow> real) \<Rightarrow> nat \<Rightarrow> nat \<Rightarrow> real" where
  "mmul n A B = (\<lambda>i j. \<Sum>m<n. A i m * B m j)"

text \<open>
  A function of \<open>n \<times> n\<close> tables that looks at the entries below \<open>n\<close> only, is linear in
  every column and vanishes when two neighbouring columns are equal.
\<close>

definition alternating_form :: "nat \<Rightarrow> ((nat \<Rightarrow> nat \<Rightarrow> real) \<Rightarrow> real) \<Rightarrow> bool" where
  "alternating_form n F \<longleftrightarrow>
     (\<forall>A B. (\<forall>i<n. \<forall>j<n. A i j = B i j) \<longrightarrow> F A = F B)
   \<and> (\<forall>A k v w a b. k < n \<longrightarrow>
         F (setcol A k (\<lambda>i. a * v i + b * w i)) = a * F (setcol A k v) + b * F (setcol A k w))
   \<and> (\<forall>A k. Suc k < n \<longrightarrow> (\<forall>i<n. A i k = A i (Suc k)) \<longrightarrow> F A = 0)"

text \<open>
  The table whose column \<open>j\<close> is the unit vector \<open>f j\<close>; exchanging two neighbours; the
  measure that sorting by such exchanges increases.
\<close>

definition unit_cols :: "(nat \<Rightarrow> nat) \<Rightarrow> nat \<Rightarrow> nat \<Rightarrow> real" where
  "unit_cols f = (\<lambda>i j. if i = f j then 1 else 0)"

definition swap_at :: "nat \<Rightarrow> (nat \<Rightarrow> 'a) \<Rightarrow> nat \<Rightarrow> 'a" where
  "swap_at k f = (\<lambda>j. if j = k then f (Suc k) else if j = Suc k then f k else f j)"

definition weight :: "nat \<Rightarrow> (nat \<Rightarrow> nat) \<Rightarrow> nat" where
  "weight n f = (\<Sum>j<n. j * f j)"

text \<open>
  The inverse of \<open>skip j\<close> on the indices other than \<open>j\<close>.
\<close>

definition unskip :: "nat \<Rightarrow> nat \<Rightarrow> nat" where
  "unskip j l = (if l < j then l else l - 1)"

text \<open>
  A table whose rows are orthonormal.
\<close>

definition orthogonal_fun :: "nat \<Rightarrow> (nat \<Rightarrow> nat \<Rightarrow> real) \<Rightarrow> bool" where
  "orthogonal_fun n Q \<longleftrightarrow> (\<forall>i<n. \<forall>j<n. mmul n Q (\<lambda>i j. Q j i) i j = ident i j)"

subsection \<open>Rotations\<close>

text \<open>An \<open>n \<times> n\<close> array whose rows are orthonormal.\<close>

definition orthogonal :: "nat \<Rightarrow> mat \<Rightarrow> bool" where
  "orthogonal n m \<longleftrightarrow> is_mat n n m \<and> np_dot m (np_transpose m) = np_identity n"

text \<open>
  The rotation that the rigid step builds from the two factors of the
  decomposition (lines 98 to 100).
\<close>

definition corrected_rotation :: "nat \<Rightarrow> mat \<Rightarrow> mat \<Rightarrow> mat" where
  "corrected_rotation ndim u vh =
     np_dot (with_rows (*) u ((replicate ndim 1)[ndim - 1 := linalg_det (np_dot u vh)])) vh"

section \<open>The determinant\<close>

text \<open>
  The determinant is linear in every column and in every row, vanishes on
  equal neighbouring columns or rows, is the only such function up to its
  value at the identity, and is therefore multiplicative and invariant under
  transposition.
\<close>

lemma skip_le: "k < n \<Longrightarrow> skip j k < Suc n"
  by (simp add: skip_def)

lemma skip_neq: "skip j k \<noteq> j"
  by (simp add: skip_def)

lemma det_cong:
  "(\<And>i j. i < n \<Longrightarrow> j < n \<Longrightarrow> A i j = B i j) \<Longrightarrow> det_fun n A = det_fun n B"
proof (induction n arbitrary: A B)
  case 0
  show ?case by simp
next
  case (Suc n)
  have eq: "(- 1) ^ (n + j) * A n j * det_fun n (\<lambda>i k. A i (skip j k))
      = (- 1) ^ (n + j) * B n j * det_fun n (\<lambda>i k. B i (skip j k))" if "j \<in> {..n}" for j
  proof -
    have "A n j = B n j" using that Suc.prems by simp
    moreover have "det_fun n (\<lambda>i k. A i (skip j k)) = det_fun n (\<lambda>i k. B i (skip j k))"
      by (rule Suc.IH) (simp add: Suc.prems skip_le)
    ultimately show ?thesis by simp
  qed
  show ?case unfolding det_fun.simps by (rule sum.cong [OF refl]) (rule eq)
qed

lemma minor_setcol_same:
  "(\<lambda>i c. setcol A k u i (skip k c)) = (\<lambda>i c. A i (skip k c))"
  by (simp add: setcol_def skip_neq)

lemma minor_setcol_other:
  "j \<noteq> k \<Longrightarrow>
   (\<lambda>i c. setcol A k u i (skip j c))
     = setcol (\<lambda>i c. A i (skip j c)) (if k < j then k else k - 1) u"
  by (rule ext, rule ext) (auto simp: setcol_def skip_def)

lemma det_col_linear:
  "k < n \<Longrightarrow>
   det_fun n (setcol A k (\<lambda>i. a * v i + b * w i))
     = a * det_fun n (setcol A k v) + b * det_fun n (setcol A k w)"
proof (induction n arbitrary: A k)
  case 0
  then show ?case by simp
next
  case (Suc n)
  let ?u = "\<lambda>i. a * v i + b * w i"
  let ?T = "\<lambda>u j. (- 1) ^ (n + j) * setcol A k u n j
               * det_fun n (\<lambda>i c. setcol A k u i (skip j c))"
  have "?T ?u j = a * ?T v j + b * ?T w j" if "j \<in> {..n}" for j
  proof (cases "j = k")
    case True
    then show ?thesis
      by (simp add: minor_setcol_same) (simp add: setcol_def algebra_simps)
  next
    case False
    let ?k = "if k < j then k else k - 1"
    have "?k < n" using False that Suc.prems by auto
    then have "det_fun n (setcol (\<lambda>i c. A i (skip j c)) ?k ?u)
        = a * det_fun n (setcol (\<lambda>i c. A i (skip j c)) ?k v)
        + b * det_fun n (setcol (\<lambda>i c. A i (skip j c)) ?k w)"
      by (rule Suc.IH)
    moreover have "setcol A k u n j = A n j" for u using False by (simp add: setcol_def)
    ultimately show ?thesis
      by (simp only: minor_setcol_other [OF False]) (simp add: algebra_simps)
  qed
  then have "(\<Sum>j\<le>n. ?T ?u j) = (\<Sum>j\<le>n. a * ?T v j + b * ?T w j)"
    by (rule sum.cong [OF refl])
  also have "\<dots> = a * (\<Sum>j\<le>n. ?T v j) + b * (\<Sum>j\<le>n. ?T w j)"
    by (simp add: sum.distrib sum_distrib_left)
  finally show ?case by simp
qed

lemma det_col_adjacent:
  "Suc k < n \<Longrightarrow> (\<And>i. i < n \<Longrightarrow> A i k = A i (Suc k)) \<Longrightarrow> det_fun n A = 0"
proof (induction n arbitrary: A k)
  case 0
  then show ?case by simp
next
  case (Suc n)
  let ?f = "\<lambda>j. (- 1) ^ (n + j) * A n j * det_fun n (\<lambda>i c. A i (skip j c))"
  have rest: "?f j = 0" if "j \<in> {..n} - {k, Suc k}" for j
  proof -
    have "det_fun n (\<lambda>i c. A i (skip j c)) = 0"
    proof (cases "j < k")
      case True
      then obtain k' where k: "k = Suc k'" "j \<le> k'" by (cases k) auto
      have "Suc k' < n" using k Suc.prems(1) by simp
      moreover have "A i (skip j k') = A i (skip j (Suc k'))" if "i < n" for i
        using k that Suc.prems(2) [of i] by (simp add: skip_def)
      ultimately show ?thesis by (rule Suc.IH)
    next
      case False
      then have j: "Suc k < j" "j \<le> n" using that by auto
      then have "Suc k < n" by simp
      moreover have "A i (skip j k) = A i (skip j (Suc k))" if "i < n" for i
        using j that Suc.prems(2) [of i] by (simp add: skip_def)
      ultimately show ?thesis by (rule Suc.IH)
    qed
    then show ?thesis by simp
  qed
  have pair: "?f k + ?f (Suc k) = 0"
  proof -
    have "det_fun n (\<lambda>i c. A i (skip k c)) = det_fun n (\<lambda>i c. A i (skip (Suc k) c))"
    proof (rule det_cong)
      fix i c assume "i < n" "c < n"
      then show "A i (skip k c) = A i (skip (Suc k) c)"
        using Suc.prems(2) [of i] by (cases "c = k") (auto simp: skip_def)
    qed
    moreover have "A n k = A n (Suc k)" using Suc.prems(2) [of n] by simp
    ultimately show ?thesis by simp
  qed
  have "sum ?f {..n} = sum ?f ({..n} - {k, Suc k}) + sum ?f {k, Suc k}"
    by (rule sum.subset_diff) (use Suc.prems(1) in auto)
  also have "sum ?f ({..n} - {k, Suc k}) = 0"
    by (rule sum.neutral) (use rest in blast)
  also have "sum ?f {k, Suc k} = ?f k + ?f (Suc k)" by simp
  also note pair
  finally show ?case by simp
qed

lemma det_ident: "det_fun n ident = 1"
proof (induction n)
  case 0
  show ?case by simp
next
  case (Suc n)
  have m: "det_fun n (\<lambda>i c. ident i (skip n c)) = det_fun n ident"
    by (rule det_cong) (simp add: skip_def)
  have "(\<Sum>j\<le>n. (- 1) ^ (n + j) * ident n j * det_fun n (\<lambda>i c. ident i (skip j c)))
      = (\<Sum>j\<le>n. if j = n then det_fun n (\<lambda>i c. ident i (skip n c)) else 0)"
    by (rule sum.cong) (auto simp: ident_def)
  also have "\<dots> = det_fun n ident" by (simp add: m)
  finally show ?case using Suc.IH by simp
qed

lemma af_cong:
  "alternating_form n F \<Longrightarrow> (\<And>i j. i < n \<Longrightarrow> j < n \<Longrightarrow> A i j = B i j) \<Longrightarrow> F A = F B"
  unfolding alternating_form_def by blast

lemma af_linear:
  "alternating_form n F \<Longrightarrow> k < n \<Longrightarrow>
   F (setcol A k (\<lambda>i. a * v i + b * w i)) = a * F (setcol A k v) + b * F (setcol A k w)"
  unfolding alternating_form_def by blast

lemma af_adjacent:
  "alternating_form n F \<Longrightarrow> Suc k < n \<Longrightarrow> (\<And>i. i < n \<Longrightarrow> A i k = A i (Suc k)) \<Longrightarrow> F A = 0"
  unfolding alternating_form_def by blast

lemma det_alternating: "alternating_form n (det_fun n)"
  unfolding alternating_form_def
  by (intro conjI allI impI) (auto intro: det_cong det_col_linear det_col_adjacent)

lemma af_add:
  assumes "alternating_form n F" "k < n"
  shows "F (setcol A k (\<lambda>i. v i + w i)) = F (setcol A k v) + F (setcol A k w)"
  using af_linear [OF assms, of A 1 v 1 w] by simp

lemma af_zero:
  assumes "alternating_form n F" "k < n"
  shows "F (setcol A k (\<lambda>i. 0)) = 0"
  using af_linear [OF assms, of A 0 "\<lambda>i. 0" 0 "\<lambda>i. 0"] by simp

lemma af_sum:
  assumes "alternating_form n F" "k < n"
  shows "F (setcol A k (\<lambda>i. \<Sum>m<(M::nat). c m * V m i)) = (\<Sum>m<M. c m * F (setcol A k (V m)))"
proof (induction M)
  case 0
  show ?case using af_zero [OF assms] by simp
next
  case (Suc M)
  have "F (setcol A k (\<lambda>i. \<Sum>m<Suc M. c m * V m i))
      = F (setcol A k (\<lambda>i. 1 * (\<Sum>m<M. c m * V m i) + c M * V M i))"
    by simp
  also have "\<dots> = 1 * F (setcol A k (\<lambda>i. \<Sum>m<M. c m * V m i)) + c M * F (setcol A k (V M))"
    by (rule af_linear [OF assms])
  finally show ?case using Suc.IH by simp
qed

lemma setcol_commute:
  "j \<noteq> k \<Longrightarrow> setcol (setcol A j x) k y = setcol (setcol A k y) j x"
  by (rule ext, rule ext) (simp add: setcol_def)

lemma af_swap:
  assumes F: "alternating_form n F" and k: "Suc k < n"
  shows "F (\<lambda>i. swap_at k (A i)) = - F A"
proof -
  let ?a = "\<lambda>i. A i k" and ?b = "\<lambda>i. A i (Suc k)"
  let ?G = "\<lambda>x y. F (setcol (setcol A k x) (Suc k) y)"
  have k': "k < n" using k by simp
  have add1: "?G (\<lambda>i. x i + x' i) y = ?G x y + ?G x' y" for x x' y
  proof -
    have "setcol (setcol A k x) (Suc k) y = setcol (setcol A (Suc k) y) k x" for x
      by (rule setcol_commute) simp
    then show ?thesis using af_add [OF F k', of "setcol A (Suc k) y" x x'] by simp
  qed
  have add2: "?G x (\<lambda>i. y i + y' i) = ?G x y + ?G x y'" for x y y'
    by (rule af_add [OF F k])
  have z: "?G x x = 0" for x
    by (rule af_adjacent [OF F k]) (simp add: setcol_def)
  have "?G (\<lambda>i. ?a i + ?b i) (\<lambda>i. ?a i + ?b i) = ?G ?a ?a + ?G ?a ?b + (?G ?b ?a + ?G ?b ?b)"
    by (simp only: add1 add2)
  then have "?G ?a ?b + ?G ?b ?a = 0" by (simp add: z)
  moreover have "setcol (setcol A k ?a) (Suc k) ?b = A"
    by (rule ext, rule ext) (simp add: setcol_def)
  moreover have "setcol (setcol A k ?b) (Suc k) ?a = (\<lambda>i. swap_at k (A i))"
    by (rule ext, rule ext) (simp add: setcol_def swap_at_def)
  ultimately show ?thesis by simp
qed

lemma unit_cols_swap: "unit_cols (swap_at k f) = (\<lambda>i. swap_at k (unit_cols f i))"
  by (rule ext, rule ext) (simp add: unit_cols_def swap_at_def)

lemma weight_bound: "(\<And>j. j < n \<Longrightarrow> f j < n) \<Longrightarrow> weight n f \<le> n * (n * n)"
proof -
  assume a: "\<And>j. j < n \<Longrightarrow> f j < n"
  have "weight n f \<le> (\<Sum>j<n. n * n)"
    unfolding weight_def
  proof (rule sum_mono)
    fix j assume "j \<in> {..<n}"
    then have "j \<le> n" "f j \<le> n" using a [of j] by simp_all
    then show "j * f j \<le> n * n" by (rule mult_le_mono)
  qed
  then show ?thesis by simp
qed

lemma weight_swap:
  assumes "Suc k < n" "f (Suc k) < f k"
  shows "weight n f < weight n (swap_at k f)"
proof -
  let ?g = "\<lambda>j. j * f j" and ?h = "\<lambda>j. j * swap_at k f j"
  have sub: "{k, Suc k} \<subseteq> {..<n}" using assms(1) by auto
  have g: "sum ?g {..<n} = sum ?g ({..<n} - {k, Suc k}) + sum ?g {k, Suc k}"
    by (rule sum.subset_diff [OF sub]) simp
  have h: "sum ?h {..<n} = sum ?h ({..<n} - {k, Suc k}) + sum ?h {k, Suc k}"
    by (rule sum.subset_diff [OF sub]) simp
  have r: "sum ?h ({..<n} - {k, Suc k}) = sum ?g ({..<n} - {k, Suc k})"
    by (rule sum.cong) (auto simp: swap_at_def)
  have "k * f k + Suc k * f (Suc k) < k * f (Suc k) + Suc k * f k"
    using assms(2) by (simp add: algebra_simps)
  then have "sum ?g {k, Suc k} < sum ?h {k, Suc k}"
    by (simp add: swap_at_def)
  then show ?thesis unfolding weight_def g h r by simp
qed

lemma increasing_is_id:
  assumes inc: "\<And>k. Suc k < n \<Longrightarrow> f k < f (Suc k)" and rng: "\<And>j. j < n \<Longrightarrow> f j < n"
    and j: "j < n"
  shows "f j = j"
proof -
  have up: "i + d < n \<Longrightarrow> f i + d \<le> f (i + d)" for i d
  proof (induction d)
    case 0
    show ?case by simp
  next
    case (Suc d)
    then have "f i + d \<le> f (i + d)" by simp
    moreover have "f (i + d) < f (Suc (i + d))" using Suc.prems by (intro inc) simp
    ultimately show ?case by simp
  qed
  have "f 0 + j \<le> f (0 + j)" using j by (intro up) simp
  then have lo: "j \<le> f j" by simp
  have "f j + (n - 1 - j) \<le> f (j + (n - 1 - j))" using j by (intro up) simp
  moreover have "j + (n - 1 - j) = n - 1" using j by simp
  moreover have "f (n - 1) < n" using j by (intro rng) simp
  ultimately have "f j \<le> j" using j by simp
  with lo show ?thesis by simp
qed

lemma af_unit_cols:
  assumes F: "alternating_form n F" and rng: "\<And>j. j < n \<Longrightarrow> f j < n"
  shows "F (unit_cols f) = det_fun n (unit_cols f) * F ident"
  using rng
proof (induction "n * (n * n) - weight n f" arbitrary: f rule: less_induct)
  case less
  note D = det_alternating [of n]
  consider (eq) k where "Suc k < n" "f k = f (Suc k)"
    | (desc) k where "Suc k < n" "f (Suc k) < f k"
    | (inc) "\<And>k. Suc k < n \<Longrightarrow> f k < f (Suc k)"
    by (meson linorder_neqE_nat)
  then show ?case
  proof cases
    case eq
    have "F (unit_cols f) = 0"
      by (rule af_adjacent [OF F eq(1)]) (simp add: unit_cols_def eq(2))
    moreover have "det_fun n (unit_cols f) = 0"
      by (rule af_adjacent [OF D eq(1)]) (simp add: unit_cols_def eq(2))
    ultimately show ?thesis by simp
  next
    case desc
    let ?f = "swap_at k f"
    have r: "?f j < n" if "j < n" for j
      using that desc(1) less.prems by (auto simp: swap_at_def)
    have "weight n f < weight n ?f" using desc by (rule weight_swap)
    moreover have "weight n ?f \<le> n * (n * n)" using r by (rule weight_bound)
    ultimately have "n * (n * n) - weight n ?f < n * (n * n) - weight n f" by simp
    then have IH: "F (unit_cols ?f) = det_fun n (unit_cols ?f) * F ident"
      using r by (rule less.hyps)
    have "F (unit_cols ?f) = - F (unit_cols f)"
      unfolding unit_cols_swap by (rule af_swap [OF F desc(1)])
    moreover have "det_fun n (unit_cols ?f) = - det_fun n (unit_cols f)"
      unfolding unit_cols_swap by (rule af_swap [OF D desc(1)])
    ultimately show ?thesis using IH by simp
  next
    case inc
    have id: "f j = j" if "j < n" for j
      using inc less.prems that by (rule increasing_is_id)
    have "F (unit_cols f) = F ident"
      by (rule af_cong [OF F]) (simp add: unit_cols_def ident_def id)
    moreover have "det_fun n (unit_cols f) = det_fun n ident"
      by (rule det_cong) (simp add: unit_cols_def ident_def id)
    ultimately show ?thesis by (simp add: det_ident)
  qed
qed

lemma af_expand:
  assumes F: "alternating_form n F"
  shows "(\<And>j. k \<le> j \<Longrightarrow> j < n \<Longrightarrow> \<exists>m<n. \<forall>i<n. A i j = (if i = m then 1 else 0))
           \<Longrightarrow> F A = det_fun n A * F ident"
proof (induction k arbitrary: A)
  case 0
  then have "\<forall>j. \<exists>m. j < n \<longrightarrow> m < n \<and> (\<forall>i<n. A i j = (if i = m then 1 else 0))"
    by blast
  then obtain f where f: "\<And>j. j < n \<Longrightarrow> f j < n \<and> (\<forall>i<n. A i j = (if i = f j then 1 else 0))"
    by metis
  have "F A = F (unit_cols f)"
    by (rule af_cong [OF F]) (simp add: unit_cols_def f)
  moreover have "det_fun n A = det_fun n (unit_cols f)"
    by (rule det_cong) (simp add: unit_cols_def f)
  moreover have "F (unit_cols f) = det_fun n (unit_cols f) * F ident"
    by (rule af_unit_cols [OF F]) (simp add: f)
  ultimately show ?case by simp
next
  case (Suc k)
  show ?case
  proof (cases "k < n")
    case False
    show ?thesis
      by (rule Suc.IH) (use False in simp)
  next
    case True
    let ?e = "\<lambda>m i. if i = m then 1 else (0::real)"
    let ?A = "setcol A k (\<lambda>i. \<Sum>m<n. A m k * ?e m i)"
    have col: "(\<Sum>m<n. A m k * ?e m i) = A i k" if "i < n" for i
    proof -
      have "(\<Sum>m<n. A m k * ?e m i) = (\<Sum>m\<in>{..<n}. if m = i then A m k else 0)"
        by (rule sum.cong) auto
      also have "\<dots> = A i k" using that by simp
      finally show ?thesis .
    qed
    have agree: "A i j = ?A i j" if "i < n" for i j
      using that by (simp add: setcol_def col)
    have unit: "G (setcol A k (?e m)) = det_fun n (setcol A k (?e m)) * G ident"
      if "m < n" and G: "G = F" for m G
      unfolding G
    proof (rule Suc.IH)
      fix j assume j: "k \<le> j" "j < n"
      show "\<exists>m'<n. \<forall>i<n. setcol A k (?e m) i j = (if i = m' then 1 else 0)"
      proof (cases "j = k")
        case True
        then show ?thesis using \<open>m < n\<close> by (auto simp: setcol_def)
      next
        case False
        then have "Suc k \<le> j" using j by simp
        from Suc.prems [OF this j(2)] show ?thesis using False by (simp add: setcol_def)
      qed
    qed
    have "F A = F ?A" by (rule af_cong [OF F]) (rule agree)
    also have "\<dots> = (\<Sum>m<n. A m k * F (setcol A k (?e m)))"
      by (rule af_sum [OF F True])
    also have "\<dots> = (\<Sum>m<n. A m k * (det_fun n (setcol A k (?e m)) * F ident))"
      by (rule sum.cong) (simp_all add: unit)
    also have "\<dots> = (\<Sum>m<n. A m k * det_fun n (setcol A k (?e m))) * F ident"
      by (simp add: sum_distrib_right mult.assoc)
    also have "(\<Sum>m<n. A m k * det_fun n (setcol A k (?e m))) = det_fun n ?A"
      by (rule af_sum [OF det_alternating True, symmetric])
    also have "det_fun n ?A = det_fun n A"
      by (rule det_cong) (simp add: agree)
    finally show ?thesis .
  qed
qed

lemma af_unique:
  assumes "alternating_form n F"
  shows "F A = det_fun n A * F ident"
  by (rule af_expand [OF assms, of n]) simp

lemma mmul_setcol:
  "mmul n A (setcol B k u) = setcol (mmul n A B) k (\<lambda>i. \<Sum>m<n. A i m * u m)"
  by (rule ext, rule ext) (simp add: mmul_def setcol_def)

lemma mmul_alternating: "alternating_form n (\<lambda>B. det_fun n (mmul n A B))"
  unfolding alternating_form_def
proof (intro conjI allI impI)
  fix B B' :: "nat \<Rightarrow> nat \<Rightarrow> real"
  assume "\<forall>i<n. \<forall>j<n. B i j = B' i j"
  then have "mmul n A B i j = mmul n A B' i j" if "j < n" for i j
    unfolding mmul_def using that by (intro sum.cong) auto
  then show "det_fun n (mmul n A B) = det_fun n (mmul n A B')"
    by (intro det_cong)
next
  fix B :: "nat \<Rightarrow> nat \<Rightarrow> real" and k v w a b
  assume k: "k < n"
  have "(\<lambda>i. \<Sum>m<n. A i m * (a * v m + b * w m))
      = (\<lambda>i. a * (\<Sum>m<n. A i m * v m) + b * (\<Sum>m<n. A i m * w m))"
    by (rule ext) (simp add: algebra_simps sum.distrib sum_distrib_left)
  then show "det_fun n (mmul n A (setcol B k (\<lambda>i. a * v i + b * w i)))
      = a * det_fun n (mmul n A (setcol B k v)) + b * det_fun n (mmul n A (setcol B k w))"
    by (simp only: mmul_setcol det_col_linear [OF k])
next
  fix B :: "nat \<Rightarrow> nat \<Rightarrow> real" and k
  assume k: "Suc k < n" and e: "\<forall>i<n. B i k = B i (Suc k)"
  have "mmul n A B i k = mmul n A B i (Suc k)" for i
    unfolding mmul_def by (rule sum.cong) (use e in auto)
  then show "det_fun n (mmul n A B) = 0"
    by (intro det_col_adjacent [OF k])
qed

lemma det_mmul: "det_fun n (mmul n A B) = det_fun n A * det_fun n B"
proof -
  have "det_fun n (mmul n A B) = det_fun n B * det_fun n (mmul n A ident)"
    by (rule af_unique [OF mmul_alternating])
  moreover have "det_fun n (mmul n A ident) = det_fun n A"
  proof (rule det_cong)
    fix i j assume "i < n" "j < n"
    have "mmul n A ident i j = (\<Sum>m\<in>{..<n}. if m = j then A i m else 0)"
      unfolding mmul_def by (rule sum.cong) (auto simp: ident_def)
    then show "mmul n A ident i j = A i j" using \<open>j < n\<close> by simp
  qed
  ultimately show ?thesis by simp
qed

lemma unskip_skip: "unskip j (skip j c) = c"
  by (simp add: unskip_def skip_def)

lemma skip_unskip: "l \<noteq> j \<Longrightarrow> skip j (unskip j l) = l"
  by (auto simp: unskip_def skip_def)

lemma skip_skip: "l < j \<Longrightarrow> skip j (skip l c) = skip l (skip (j - 1) c)"
  by (auto simp: skip_def)

lemma sum_skip:
  fixes h :: "nat \<Rightarrow> real"
  assumes "j \<le> Suc n"
  shows "(\<Sum>c\<le>n. h (skip j c)) = (\<Sum>l\<le>Suc n. if l = j then 0 else h l)"
proof -
  have "(\<Sum>l\<le>Suc n. if l = j then 0 else h l) = sum h ({..Suc n} - {j})"
    by (rule sum.mono_neutral_cong_right) auto
  also have "\<dots> = (\<Sum>c\<le>n. h (skip j c))"
  proof (rule sum.reindex_bij_witness [where i = "skip j" and j = "unskip j"])
    fix a assume "a \<in> {..Suc n} - {j}"
    then show "skip j (unskip j a) = a" "unskip j a \<in> {..n}"
      using assms by (auto simp: skip_def unskip_def)
  next
    fix b assume "b \<in> {..n}"
    then show "unskip j (skip j b) = b" "skip j b \<in> {..Suc n} - {j}"
      by (auto simp: skip_def unskip_def)
  next
    fix a assume "a \<in> {..Suc n} - {j}"
    then show "h (skip j (unskip j a)) = h a" by (simp add: skip_unskip)
  qed
  finally show ?thesis by simp
qed

lemma antisymmetric_sum:
  fixes T :: "nat \<Rightarrow> nat \<Rightarrow> real"
  assumes "\<And>j l. T l j = - T j l"
  shows "(\<Sum>j\<in>S. \<Sum>l\<in>S. T j l) = 0"
proof -
  have "(\<Sum>j\<in>S. \<Sum>l\<in>S. T j l) = (\<Sum>l\<in>S. \<Sum>j\<in>S. T j l)" by (rule sum.swap)
  also have "\<dots> = (\<Sum>l\<in>S. \<Sum>j\<in>S. - T l j)"
    by (intro sum.cong refl) (rule assms)
  also have "\<dots> = - (\<Sum>l\<in>S. \<Sum>j\<in>S. T l j)" by (simp add: sum_negf)
  finally show ?thesis by simp
qed

lemma det_last_rows_equal:
  assumes eq: "\<And>j. j \<le> Suc r \<Longrightarrow> A r j = A (Suc r) j"
  shows "det_fun (Suc (Suc r)) A = 0"
proof -
  let ?a = "\<lambda>j. A (Suc r) j"
  let ?D = "\<lambda>j l. det_fun r (\<lambda>i c. A i (skip j (skip (unskip j l) c)))"
  let ?T = "\<lambda>j l. if l = j then 0
              else (- 1) ^ (Suc r + j) * ((- 1) ^ (r + unskip j l) * ?a j * ?a l * ?D j l)"
  have minor: "det_fun (Suc r) (\<lambda>i c. A i (skip j c))
      = (\<Sum>l\<le>Suc r. if l = j then 0 else (- 1) ^ (r + unskip j l) * ?a l * ?D j l)"
    if j: "j \<le> Suc r" for j
  proof -
    have "det_fun (Suc r) (\<lambda>i c. A i (skip j c))
        = (\<Sum>c\<le>r. (- 1) ^ (r + c) * A r (skip j c) * det_fun r (\<lambda>i c'. A i (skip j (skip c c'))))"
      by simp
    also have "\<dots> = (\<Sum>c\<le>r. (- 1) ^ (r + unskip j (skip j c)) * ?a (skip j c) * ?D j (skip j c))"
    proof (rule sum.cong [OF refl])
      fix c assume "c \<in> {..r}"
      then have "skip j c \<le> Suc r" by (simp add: skip_def)
      then have "A r (skip j c) = ?a (skip j c)" by (rule eq)
      then show "(- 1) ^ (r + c) * A r (skip j c) * det_fun r (\<lambda>i c'. A i (skip j (skip c c')))
          = (- 1) ^ (r + unskip j (skip j c)) * ?a (skip j c) * ?D j (skip j c)"
        by (simp add: unskip_skip)
    qed
    also have "\<dots> = (\<Sum>l\<le>Suc r. if l = j then 0 else (- 1) ^ (r + unskip j l) * ?a l * ?D j l)"
      by (rule sum_skip [OF j])
    finally show ?thesis .
  qed
  have D_sym: "det_fun r (\<lambda>i c. A i (skip (Suc j') (skip l c)))
      = det_fun r (\<lambda>i c. A i (skip l (skip j' c)))" if "l < Suc j'" for j' l
    using skip_skip [OF that] by simp
  have T_lt: "?T l j = - ?T j l" if "l < j" for j l
  proof -
    from that obtain j' where j': "j = Suc j'" by (cases j) auto
    have u: "unskip j l = l" "unskip l j = j'" using that j' by (simp_all add: unskip_def)
    have d: "det_fun r (\<lambda>i c. A i (skip j (skip l c)))
        = det_fun r (\<lambda>i c. A i (skip l (skip j' c)))"
      using that D_sym [of l j'] unfolding j' by simp
    have "?T j l = (- 1) ^ (Suc r + j) * ((- 1) ^ (r + l) * ?a j * ?a l * ?D l j)"
      using that by (simp add: u d)
    moreover have "?T l j = (- 1) ^ (Suc r + l) * ((- 1) ^ (r + j') * ?a l * ?a j * ?D l j)"
      using that by (simp add: u)
    ultimately show ?thesis by (simp add: j' power_add)
  qed
  have anti: "?T l j = - ?T j l" for j l
  proof -
    consider "l < j" | "l = j" | "j < l" by arith
    then show ?thesis
    proof cases
      case 1
      then show ?thesis by (rule T_lt)
    next
      case 2
      then show ?thesis by simp
    next
      case 3
      then have "?T j l = - ?T l j" by (rule T_lt)
      then show ?thesis by simp
    qed
  qed
  have "det_fun (Suc (Suc r)) A
      = (\<Sum>j\<le>Suc r. (- 1) ^ (Suc r + j) * ?a j * det_fun (Suc r) (\<lambda>i c. A i (skip j c)))"
    by (simp only: det_fun.simps)
  also have "\<dots> = (\<Sum>j\<le>Suc r. \<Sum>l\<le>Suc r. ?T j l)"
  proof (rule sum.cong [OF refl])
    fix j assume "j \<in> {..Suc r}"
    then have j: "j \<le> Suc r" by simp
    have "(- 1) ^ (Suc r + j) * ?a j
            * (\<Sum>l\<le>Suc r. if l = j then 0 else (- 1) ^ (r + unskip j l) * ?a l * ?D j l)
        = (\<Sum>l\<le>Suc r. ?T j l)"
      unfolding sum_distrib_left by (rule sum.cong) (simp_all add: algebra_simps)
    then show "(- 1) ^ (Suc r + j) * ?a j * det_fun (Suc r) (\<lambda>i c. A i (skip j c))
        = (\<Sum>l\<le>Suc r. ?T j l)"
      by (simp only: minor [OF j])
  qed
  also have "\<dots> = 0" by (rule antisymmetric_sum) (rule anti)
  finally show ?thesis .
qed

lemma minor_setrow_other:
  "(\<lambda>i c. setrow A r u i (skip j c)) = setrow (\<lambda>i c. A i (skip j c)) r (\<lambda>c. u (skip j c))"
  by (rule ext, rule ext) (simp add: setrow_def)

lemma det_row_linear:
  "r < n \<Longrightarrow>
   det_fun n (setrow A r (\<lambda>j. a * v j + b * w j))
     = a * det_fun n (setrow A r v) + b * det_fun n (setrow A r w)"
proof (induction n arbitrary: A r v w)
  case 0
  then show ?case by simp
next
  case (Suc n)
  let ?u = "\<lambda>j. a * v j + b * w j"
  let ?T = "\<lambda>u j. (- 1) ^ (n + j) * setrow A r u n j
               * det_fun n (\<lambda>i c. setrow A r u i (skip j c))"
  have "?T ?u j = a * ?T v j + b * ?T w j" if "j \<in> {..n}" for j
  proof (cases "r = n")
    case True
    have m: "det_fun n (\<lambda>i c. setrow A r u i (skip j c)) = det_fun n (\<lambda>i c. A i (skip j c))" for u
      by (rule det_cong) (simp add: setrow_def True)
    have e: "setrow A r u n j = u j" for u by (simp add: setrow_def True)
    show ?thesis by (simp only: m e) (simp add: algebra_simps)
  next
    case False
    then have "r < n" using Suc.prems by simp
    then have "det_fun n (setrow (\<lambda>i c. A i (skip j c)) r (\<lambda>c. a * v (skip j c) + b * w (skip j c)))
        = a * det_fun n (setrow (\<lambda>i c. A i (skip j c)) r (\<lambda>c. v (skip j c)))
        + b * det_fun n (setrow (\<lambda>i c. A i (skip j c)) r (\<lambda>c. w (skip j c)))"
      by (rule Suc.IH)
    moreover have "setrow A r u n j = A n j" for u using False by (simp add: setrow_def)
    ultimately show ?thesis
      by (simp only: minor_setrow_other) (simp add: algebra_simps)
  qed
  then have "(\<Sum>j\<le>n. ?T ?u j) = (\<Sum>j\<le>n. a * ?T v j + b * ?T w j)"
    by (rule sum.cong [OF refl])
  also have "\<dots> = a * (\<Sum>j\<le>n. ?T v j) + b * (\<Sum>j\<le>n. ?T w j)"
    by (simp add: sum.distrib sum_distrib_left)
  finally show ?case by simp
qed

lemma det_row_adjacent:
  "Suc r < n \<Longrightarrow> (\<And>j. j < n \<Longrightarrow> A r j = A (Suc r) j) \<Longrightarrow> det_fun n A = 0"
proof (induction n arbitrary: A)
  case 0
  then show ?case by simp
next
  case (Suc n)
  show ?case
  proof (cases "Suc r = n")
    case True
    have "det_fun (Suc (Suc r)) A = 0"
      by (rule det_last_rows_equal) (use Suc.prems(2) True in simp)
    then show ?thesis using True by simp
  next
    case False
    then have r: "Suc r < n" using Suc.prems(1) by simp
    have "det_fun n (\<lambda>i c. A i (skip j c)) = 0" for j
      by (rule Suc.IH [OF r]) (simp add: Suc.prems(2) skip_le)
    then show ?thesis by simp
  qed
qed

lemma transpose_alternating: "alternating_form n (\<lambda>A. det_fun n (\<lambda>i j. A j i))"
  unfolding alternating_form_def
proof (intro conjI allI impI)
  fix A B :: "nat \<Rightarrow> nat \<Rightarrow> real"
  assume "\<forall>i<n. \<forall>j<n. A i j = B i j"
  then show "det_fun n (\<lambda>i j. A j i) = det_fun n (\<lambda>i j. B j i)"
    by (intro det_cong) simp
next
  fix A :: "nat \<Rightarrow> nat \<Rightarrow> real" and k v w a b
  assume k: "k < n"
  have "(\<lambda>i j. setcol A k u j i) = setrow (\<lambda>i j. A j i) k u" for u
    by (rule ext, rule ext) (simp add: setcol_def setrow_def)
  then show "det_fun n (\<lambda>i j. setcol A k (\<lambda>i. a * v i + b * w i) j i)
      = a * det_fun n (\<lambda>i j. setcol A k v j i) + b * det_fun n (\<lambda>i j. setcol A k w j i)"
    by (simp only: det_row_linear [OF k])
next
  fix A :: "nat \<Rightarrow> nat \<Rightarrow> real" and k
  assume k: "Suc k < n" and e: "\<forall>i<n. A i k = A i (Suc k)"
  show "det_fun n (\<lambda>i j. A j i) = 0"
    by (rule det_row_adjacent [OF k]) (use e in blast)
qed

lemma det_transpose: "det_fun n (\<lambda>i j. A j i) = det_fun n A"
proof -
  have "det_fun n (\<lambda>i j. A j i) = det_fun n A * det_fun n (\<lambda>i j. ident j i)"
    by (rule af_unique [OF transpose_alternating])
  moreover have "(\<lambda>i j. ident j i) = ident" by (intro ext) (simp add: ident_def)
  ultimately show ?thesis by (simp add: det_ident)
qed

lemma det_orthogonal: "orthogonal_fun n Q \<Longrightarrow> (det_fun n Q)\<^sup>2 = 1"
proof -
  assume o: "orthogonal_fun n Q"
  have "det_fun n (mmul n Q (\<lambda>i j. Q j i)) = det_fun n ident"
    by (rule det_cong) (use o [unfolded orthogonal_fun_def] in blast)
  then have "det_fun n Q * det_fun n (\<lambda>i j. Q j i) = 1"
    by (simp only: det_mmul det_ident)
  then show ?thesis
    by (simp only: det_transpose [of n Q] power2_eq_square)
qed

lemma orthogonal_funD:
  "orthogonal_fun n Q \<Longrightarrow> i < n \<Longrightarrow> j < n \<Longrightarrow> (\<Sum>m<n. Q i m * Q j m) = ident i j"
  unfolding orthogonal_fun_def mmul_def by blast

lemma det_scale_col:
  assumes "k < n"
  shows "det_fun n (\<lambda>i j. U i j * (if j = k then d else 1)) = d * det_fun n U"
proof -
  have "(\<lambda>i j. U i j * (if j = k then d else 1))
      = setcol U k (\<lambda>i. d * U i k + 0 * U i k)"
    by (intro ext) (simp add: setcol_def)
  moreover have "setcol U k (\<lambda>i. U i k) = U"
    by (intro ext) (simp add: setcol_def)
  ultimately show ?thesis
    using det_col_linear [OF assms, of U d "\<lambda>i. U i k" 0 "\<lambda>i. U i k"] by simp
qed

lemma gram_product:
  assumes V: "orthogonal_fun n V" and i: "i < n" and j: "j < n"
  shows "(\<Sum>m<n. mmul n W V i m * mmul n W V j m) = (\<Sum>a<n. W i a * W j a)"
proof -
  have "(\<Sum>m<n. mmul n W V i m * mmul n W V j m)
      = (\<Sum>m<n. \<Sum>a<n. \<Sum>b<n. W i a * W j b * (V a m * V b m))"
    unfolding mmul_def sum_product by (simp add: algebra_simps)
  also have "\<dots> = (\<Sum>a<n. \<Sum>m<n. \<Sum>b<n. W i a * W j b * (V a m * V b m))"
    by (rule sum.swap)
  also have "\<dots> = (\<Sum>a<n. \<Sum>b<n. \<Sum>m<n. W i a * W j b * (V a m * V b m))"
    by (intro sum.cong refl sum.swap)
  also have "\<dots> = (\<Sum>a<n. \<Sum>b<n. W i a * W j b * ident a b)"
  proof (intro sum.cong refl)
    fix a b assume "a \<in> {..<n}" "b \<in> {..<n}"
    then have "(\<Sum>m<n. V a m * V b m) = ident a b"
      using V by (simp add: orthogonal_funD)
    then show "(\<Sum>m<n. W i a * W j b * (V a m * V b m)) = W i a * W j b * ident a b"
      by (simp add: sum_distrib_left [symmetric])
  qed
  also have "\<dots> = (\<Sum>a<n. W i a * W j a)"
  proof (intro sum.cong refl)
    fix a assume a: "a \<in> {..<n}"
    have "(\<Sum>b<n. W i a * W j b * ident a b) = (\<Sum>b\<in>{..<n}. if b = a then W i a * W j a else 0)"
      by (rule sum.cong) (auto simp: ident_def)
    also have "\<dots> = W i a * W j a" using a by simp
    finally show "(\<Sum>b<n. W i a * W j b * ident a b) = W i a * W j a" .
  qed
  finally show ?thesis .
qed

lemma proper_rotation_fun:
  assumes U: "orthogonal_fun n U" and V: "orthogonal_fun n V" and n: "0 < n"
    and d: "d = det_fun n (mmul n U V)"
    and R: "R = mmul n (\<lambda>i j. U i j * (if j = n - 1 then d else 1)) V"
  shows "det_fun n R = 1"
    and "\<And>i j. i < n \<Longrightarrow> j < n \<Longrightarrow> (\<Sum>m<n. R i m * R j m) = ident i j"
proof -
  have dd: "d * d = 1"
  proof -
    have "d\<^sup>2 = (det_fun n U)\<^sup>2 * (det_fun n V)\<^sup>2"
      unfolding d det_mmul by (simp add: power_mult_distrib)
    then show ?thesis using det_orthogonal [OF U] det_orthogonal [OF V]
      by (simp add: power2_eq_square)
  qed
  let ?W = "\<lambda>i j. U i j * (if j = n - 1 then d else 1)"
  have "det_fun n R = det_fun n ?W * det_fun n V" unfolding R by (rule det_mmul)
  also have "det_fun n ?W = d * det_fun n U" by (rule det_scale_col) (use n in simp)
  also have "d * det_fun n U * det_fun n V = d * d" unfolding d det_mmul by simp
  finally show "det_fun n R = 1" using dd by simp
  fix i j assume i: "i < n" and j: "j < n"
  have "(\<Sum>m<n. R i m * R j m) = (\<Sum>a<n. ?W i a * ?W j a)"
    unfolding R by (rule gram_product [OF V i j])
  also have "\<dots> = (\<Sum>a<n. U i a * U j a)"
    by (rule sum.cong) (use dd in \<open>auto simp: algebra_simps\<close>)
  also have "\<dots> = ident i j" using U i j by (rule orthogonal_funD)
  finally show "(\<Sum>m<n. R i m * R j m) = ident i j" .
qed

section \<open>Properties\<close>

lemmas np_defs = shape0_def shape1_def col_def np_transpose_def vdot_def np_dot_def mat_vec_def
  vec_mat_def outer_def trace_def sum_axis0_def with_rows_def mat_sub_def vec_sub_def smul_def
  np_diag_def np_identity_def broadcast2_def and_then_def

lemmas demo_defs = spec_gauss_def gauss_sum_def gauss_sum2_def sqdist_def solve_demo_def
  svd_demo_def diagonal_def is_mat_def demo_env_def

subsection \<open>Worked runs of the steps\<close>

lemma nonrigid_demo_1:
  "nonrigid_maximization_step solve_demo [[0]] [[1]] (EstepResult [1] [1] [[1]] 1) (Some 1) [[1]] 2
     = Inr (MstepResult (NonRigidTransformation [[1]] (Array2 [[1/3]]))
              (Finite (4/9)) (Finite (4/9)))"
  by (simp add: nonrigid_maximization_step_def demo_defs np_defs Let_def power2_eq_square)

lemma nonrigid_demo_2:
  "nonrigid_maximization_step solve_demo [[0]] [[1]] (EstepResult [1] [1] [[1]] 1) (Some 2) [[1]] 2
     = Inr (MstepResult (NonRigidTransformation [[1]] (Array2 [[1/5]]))
              (Finite (16/25)) (Finite (16/25)))"
  by (simp add: nonrigid_maximization_step_def demo_defs np_defs Let_def power2_eq_square)

lemma affine_demo:
  "affine_maximization_step solve_demo [[0], [2]] [[0], [2]]
     (EstepResult [1, 1] [1, 1] [[1 / 2], [3 / 2]] 2) None
     = Inr (MstepResult (AffineTransformation [[1 / 2]] [1 / 2])
              (Finite (3 / 4)) (Finite (1 + ln (3 / 4))))"
  by (simp add: affine_maximization_step_def demo_defs np_defs Let_def power2_eq_square)

subsection \<open>The previous variance\<close>

text \<open>
  C9. The rigid and the affine maximization step do not depend on the
  previous variance \<open>sigma2_p\<close>: any two values give the same result, for the
  static steps and for the registrars' methods. The non-rigid step does depend
  on it: on one and the same input, the previous variances 1 and 2 give
  different results.
\<close>

theorem sigma2_p_only_nonrigid:
  "rigid_maximization_step svd source target estep_res s1
     = rigid_maximization_step svd source target estep_res s2
   \<and> affine_maximization_step solve source target estep_res s1
     = affine_maximization_step solve source target estep_res s2
   \<and> maximization_step env (RigidCPD src) x estep_res s1
     = maximization_step env (RigidCPD src) x estep_res s2
   \<and> maximization_step env (AffineCPD src) x estep_res s1
     = maximization_step env (AffineCPD src) x estep_res s2
   \<and> nonrigid_maximization_step solve_demo [[0]] [[1]] (EstepResult [1] [1] [[1]] 1) (Some 1) [[1]] 2
     \<noteq> nonrigid_maximization_step solve_demo [[0]] [[1]] (EstepResult [1] [1] [[1]] 1) (Some 2) [[1]] 2"
proof -
  have r: "rigid_maximization_step svd source target estep_res s1
     = rigid_maximization_step svd source target estep_res s2" for svd source target estep_res
    by (simp add: rigid_maximization_step_def)
  have a: "affine_maximization_step solve source target estep_res s1
     = affine_maximization_step solve source target estep_res s2" for solve source target estep_res
    by (simp add: affine_maximization_step_def)
  have n: "nonrigid_maximization_step solve_demo [[0]] [[1]] (EstepResult [1] [1] [[1]] 1) (Some 1) [[1]] 2
     \<noteq> nonrigid_maximization_step solve_demo [[0]] [[1]] (EstepResult [1] [1] [[1]] 1) (Some 2) [[1]] 2"
    unfolding nonrigid_demo_1 nonrigid_demo_2 by simp
  show ?thesis
    using n by (auto simp: maximization_step_def r a split: option.splits ndarray.splits)
qed

subsection \<open>The objective of the affine step\<close>

text \<open>
  C5. Whenever the affine maximization step returns a result, with linear map
  \<open>b\<close>, variance \<open>sigma2_new\<close> and objective \<open>q\<close>, then with
  \<open>tr_ab = trace (a b\<^sup>T)\<close> for the cross-covariance matrix \<open>a\<close> of the step:
  \<open>sigma2_new\<close> is the quotient \<open>(tr_xp1x - tr_ab) / (n_p D)\<close>, and \<open>q\<close> is
  the objective with the numerator \<open>tr_xp1x - 2 tr_ab + tr_ab\<close>, which is the
  objective with the numerator \<open>tr_xp1x - tr_ab\<close>: the two cross terms are the
  same trace. When the variance is a positive real number these are the
  equations
  \<open>q = (tr_xp1x - 2 tr_ab + tr_ab) / (2 sigma2_new) + D n_p / 2 log sigma2_new\<close>
  and
  \<open>q = (tr_xp1x - tr_ab) / (2 sigma2_new) + D n_p / 2 log sigma2_new\<close>
  between real numbers.
\<close>

theorem affine_objective:
  assumes "affine_maximization_step solve source target (EstepResult pt1 p1 px n_p) sigma2_p
             = Inr (MstepResult (AffineTransformation b t) sigma2_new q)"
  shows "let tr_ab = trace (np_dot (cross_covariance source p1 px n_p) (np_transpose b));
             tr_xp1x = tr_xp1x_of target pt1 px n_p;
             D = real (shape1 source)
         in sigma2_new = np_divide (Finite (tr_xp1x - tr_ab)) (n_p * D)
          \<and> q = objective (Finite (tr_xp1x - 2 * tr_ab + tr_ab)) sigma2_new (D * n_p / 2)
          \<and> q = objective (Finite (tr_xp1x - tr_ab)) sigma2_new (D * n_p / 2)
          \<and> (\<forall>s. sigma2_new = Finite s \<and> 0 < s \<longrightarrow>
                s = (tr_xp1x - tr_ab) / (n_p * D)
              \<and> q = Finite ((tr_xp1x - 2 * tr_ab + tr_ab) / (2 * s) + D * n_p / 2 * ln s)
              \<and> q = Finite ((tr_xp1x - tr_ab) / (2 * s) + D * n_p / 2 * ln s))"
  using assms
  by (auto simp: affine_maximization_step_def cross_covariance_def tr_xp1x_of_def centroid_x_def
      centroid_y_def Let_def and_then_def split: if_splits sum.splits)

theorem affine_objective_witness:
  "affine_maximization_step solve_demo [[0], [2]] [[0], [2]]
     (EstepResult [1, 1] [1, 1] [[1 / 2], [3 / 2]] 2) None
     = Inr (MstepResult (AffineTransformation [[1 / 2]] [1 / 2])
              (Finite (3 / 4)) (Finite (1 + ln (3 / 4))))
   \<and> trace (np_dot (cross_covariance [[0], [2]] [1, 1] [[1 / 2], [3 / 2]] 2)
               (np_transpose [[1 / 2]])) = 1 / 2
   \<and> tr_xp1x_of [[0], [2]] [1, 1] [[1 / 2], [3 / 2]] 2 = 2
   \<and> (let tr_ab = trace (np_dot (cross_covariance [[0], [2]] [1, 1] [[1 / 2], [3 / 2]] 2)
                            (np_transpose [[1 / 2]]));
          tr_xp1x = tr_xp1x_of [[0], [2]] [1, 1] [[1 / 2], [3 / 2]] 2;
          D = real (shape1 [[0], [2]])
      in Finite (3 / 4) = np_divide (Finite (tr_xp1x - tr_ab)) (2 * D)
       \<and> Finite (1 + ln (3 / 4))
           = objective (Finite (tr_xp1x - 2 * tr_ab + tr_ab)) (Finite (3 / 4)) (D * 2 / 2)
       \<and> Finite (1 + ln (3 / 4))
           = objective (Finite (tr_xp1x - tr_ab)) (Finite (3 / 4)) (D * 2 / 2)
       \<and> (3::real) / 4 = (tr_xp1x - tr_ab) / (2 * D)
       \<and> 1 + ln (3 / 4) = (tr_xp1x - 2 * tr_ab + tr_ab) / (2 * (3 / 4)) + D * 2 / 2 * ln (3 / 4)
       \<and> 1 + ln (3 / 4) = (tr_xp1x - tr_ab) / (2 * (3 / 4)) + D * 2 / 2 * ln (3 / 4))"
proof -
  let ?A = "trace (np_dot (cross_covariance [[0], [2]] [1, 1] [[1 / 2], [3 / 2]] 2)
                     (np_transpose [[1 / 2]]))"
  let ?X = "tr_xp1x_of [[0], [2]] [1, 1] [[1 / 2], [3 / 2]] 2"
  let ?D = "real (shape1 [[0], [2::real]])"
  have a: "?A = 1 / 2"
    by (simp add: cross_covariance_def centroid_x_def centroid_y_def np_defs Let_def)
  have x: "?X = 2"
    by (simp add: tr_xp1x_of_def centroid_x_def np_defs Let_def power2_eq_square)
  note t = affine_objective [OF affine_demo, unfolded Let_def]
  have p: "Finite (3 / 4) = Finite (3 / 4) \<and> (0::real) < 3 / 4" by simp
  note t4 = t [THEN conjunct2, THEN conjunct2, THEN conjunct2, rule_format, OF p]
  from t have c1: "Finite (3 / 4) = np_divide (Finite (?X - ?A)) (2 * ?D)" by blast
  from t have c2: "Finite (1 + ln (3 / 4))
           = objective (Finite (?X - 2 * ?A + ?A)) (Finite (3 / 4)) (?D * 2 / 2)" by blast
  from t have c3: "Finite (1 + ln (3 / 4))
           = objective (Finite (?X - ?A)) (Finite (3 / 4)) (?D * 2 / 2)" by blast
  from t4 have e1: "(3::real) / 4 = (?X - ?A) / (2 * ?D)" by blast
  from t4 have "Finite (1 + ln (3 / 4))
      = Finite ((?X - 2 * ?A + ?A) / (2 * (3 / 4)) + ?D * 2 / 2 * ln (3 / 4))" by blast
  then have e2: "1 + ln (3 / 4) = (?X - 2 * ?A + ?A) / (2 * (3 / 4)) + ?D * 2 / 2 * ln (3 / 4)"
    by (simp only: float64.inject)
  from t4 have "Finite (1 + ln (3 / 4))
      = Finite ((?X - ?A) / (2 * (3 / 4)) + ?D * 2 / 2 * ln (3 / 4))" by blast
  then have e3: "1 + ln (3 / 4) = (?X - ?A) / (2 * (3 / 4)) + ?D * 2 / 2 * ln (3 / 4)"
    by (simp only: float64.inject)
  show ?thesis
    unfolding Let_def using affine_demo a x c1 c2 c3 e1 e2 e3 by blast
qed

subsection \<open>The kernel matrix of the non-rigid registrar\<close>

lemma kc_init: "kernel_consistent gk beta lmd (NonRigidCPD_init gk src0 beta lmd)"
  by (simp add: kernel_consistent_def NonRigidCPD_init_def)

lemma kc_set:
  "kernel_consistent gk beta lmd st \<Longrightarrow> kernel_consistent gk beta lmd (set_source gk st s)"
  by (cases st) (simp_all add: kernel_consistent_def)

lemma kc_foldl:
  "kernel_consistent gk beta lmd st \<Longrightarrow>
   kernel_consistent gk beta lmd (foldl (set_source gk) st srcs)"
  by (induction srcs arbitrary: st) (simp_all add: kc_set)

lemma kc_source_set:
  "kernel_consistent gk beta lmd st \<Longrightarrow> source_of (set_source gk st s) = Some s"
  by (cases st) (simp_all add: kernel_consistent_def)

text \<open>
  C10. Take a non-rigid registrar, built with any source (or none), after any
  sequence of \<open>set_source\<close> calls. Its source is the last one set (the
  constructor's if none was set). Whenever it has a source, its kernel matrix
  is \<open>gaussian_kernel\<close> of that source and of \<open>beta\<close>; its maximization step
  is the static step run with exactly this matrix, and its initial
  transformation carries this matrix.
\<close>

theorem nonrigid_kernel_follows_source:
  fixes env :: collaborators and src0 beta lmd srcs
  defines "gk \<equiv> gaussian_kernel env"
  defines "st \<equiv> nonrigid_after (gaussian_kernel env) src0 beta lmd srcs"
  shows "(\<forall>s. source_of st = Some s \<longrightarrow> g_of st = Some (gk s beta))
       \<and> (source_of st = None \<longrightarrow> g_of st = None)
       \<and> source_of st = (if srcs = [] then src0 else Some (last srcs))
       \<and> (\<forall>s x estep_res sigma2_p. source_of st = Some (Array2 s) \<longrightarrow>
            maximization_step env st x estep_res sigma2_p
              = nonrigid_maximization_step (linalg_solve env) s x estep_res sigma2_p
                  (gk (Array2 s) beta) lmd)
       \<and> (\<forall>s target. source_of st = Some (Array2 s) \<longrightarrow>
            initialize env st target
              = and_then (msn_all_combination env (Array2 s) target) (\<lambda>sigma2.
                  Inr (MstepResult
                         (NonRigidTransformation (gk (Array2 s) beta)
                            (Array1 (replicate (length s) 0)))
                         (Finite sigma2)
                         (f_add (Finite 1)
                            (f_mul (Finite (real (shape0_of target) * real (shape1 s) * 0.5))
                               (np_log sigma2))))))"
proof -
  have kc: "kernel_consistent gk beta lmd st"
    unfolding st_def nonrigid_after_def gk_def by (rule kc_foldl) (rule kc_init)
  have src: "source_of st = (if srcs = [] then src0 else Some (last srcs))"
  proof (cases srcs rule: rev_cases)
    case Nil
    then show ?thesis by (simp add: st_def nonrigid_after_def NonRigidCPD_init_def)
  next
    case (snoc ys y)
    have "kernel_consistent gk beta lmd
            (foldl (set_source gk) (NonRigidCPD_init gk src0 beta lmd) ys)"
      by (rule kc_foldl) (rule kc_init)
    then show ?thesis
      using snoc by (simp add: st_def nonrigid_after_def gk_def kc_source_set)
  qed
  from kc obtain src g where st: "st = NonRigidCPD src beta lmd g"
    and g: "g = (case src of None \<Rightarrow> None | Some s \<Rightarrow> Some (gk s beta))"
    by (cases st) (auto simp: kernel_consistent_def)
  show ?thesis
    unfolding src [symmetric]
    by (auto simp: st g maximization_step_def initialize_def and_then_def Let_def shape0_def
        split: option.splits ndarray.splits sum.splits)
qed

theorem nonrigid_kernel_follows_source_witness:
  "source_of (nonrigid_after (gaussian_kernel demo_env) None 2 3 [Array2 [[0]], Array2 [[0], [1]]])
     = Some (Array2 [[0], [1]])
   \<and> g_of (nonrigid_after (gaussian_kernel demo_env) None 2 3 [Array2 [[0]], Array2 [[0], [1]]])
     = Some (gaussian_kernel demo_env (Array2 [[0], [1]]) 2)
   \<and> maximization_step demo_env
        (nonrigid_after (gaussian_kernel demo_env) None 2 3 [Array2 [[0]], Array2 [[0], [1]]])
        [[1], [2]] (EstepResult [1, 1] [1, 1] [[1], [2]] 2) (Some 1)
     = nonrigid_maximization_step (linalg_solve demo_env) [[0], [1]] [[1], [2]]
         (EstepResult [1, 1] [1, 1] [[1], [2]] 2) (Some 1)
         (gaussian_kernel demo_env (Array2 [[0], [1]]) 2) 3"
  using nonrigid_kernel_follows_source
          [where env = demo_env and ?src0.0 = None and beta = 2 and lmd = 3
             and srcs = "[Array2 [[0]], Array2 [[0], [1]]]"]
  by simp

subsection \<open>The driver\<close>

lemma converged_at_Suc:
  "em_iteration env cpd target w res = Inr res' \<Longrightarrow> 0 < j \<Longrightarrow>
   converged_at env cpd target w tol res (Suc j) = converged_at env cpd target w tol res' j"
  by (cases j) (simp_all add: converged_at_def and_then_def)

lemma converged_at_1:
  "em_iteration env cpd target w res = Inr res' \<Longrightarrow>
   converged_at env cpd target w tol res (Suc 0)
     \<longleftrightarrow> abs_diff_less (q_of res') (q_of res) tol"
  by (simp add: converged_at_def and_then_def)

lemma em_loop_char:
  "em_loop env cpd target w tol n res (q_of res) = Inr (r, k) \<Longrightarrow>
   k \<le> n \<and> em_results env cpd target w k res = Inr r
   \<and> (k < n \<longrightarrow> 0 < k \<and> converged_at env cpd target w tol res k)
   \<and> (\<forall>j. 0 < j \<and> j < k \<longrightarrow> \<not> converged_at env cpd target w tol res j)"
proof (induction n arbitrary: res r k)
  case 0
  then show ?case by simp
next
  case (Suc n)
  from Suc.prems obtain res' where it: "em_iteration env cpd target w res = Inr res'"
    by (auto simp: and_then_def split: sum.splits)
  show ?case
  proof (cases "abs_diff_less (q_of res') (q_of res) tol")
    case True
    with Suc.prems it have "r = res'" "k = 1" by (simp_all add: and_then_def)
    with it True show ?thesis by (simp add: and_then_def converged_at_1)
  next
    case False
    with Suc.prems it obtain k' where
      rec: "em_loop env cpd target w tol n res' (q_of res') = Inr (r, k')" and k: "k = Suc k'"
      by (auto simp: and_then_def split: sum.splits prod.splits)
    note IH = Suc.IH [OF rec]
    have a: "k \<le> Suc n" using IH k by simp
    have b: "em_results env cpd target w k res = Inr r" using IH k it by (simp add: and_then_def)
    have c: "k < Suc n \<longrightarrow> 0 < k \<and> converged_at env cpd target w tol res k"
      using IH k it by (auto simp: converged_at_Suc)
    have d: "\<not> converged_at env cpd target w tol res j" if "0 < j" "j < k" for j
    proof (cases j)
      case 0
      with that show ?thesis by simp
    next
      case (Suc i)
      show ?thesis
      proof (cases i)
        case 0
        then show ?thesis using Suc it False by (simp add: converged_at_1)
      next
        case (Suc i')
        then have "0 < i" "i < k'" using that k \<open>j = Suc i\<close> by simp_all
        then have "\<not> converged_at env cpd target w tol res' i" using IH by blast
        then show ?thesis using \<open>j = Suc i\<close> \<open>0 < i\<close> it by (simp add: converged_at_Suc)
      qed
    qed
    show ?thesis using a b c d by blast
  qed
qed

lemma em_loop_error:
  "em_loop env cpd target w tol n res q = Inl e \<Longrightarrow>
   \<exists>r. em_iteration env cpd target w r = Inl e"
proof (induction n arbitrary: res q)
  case 0
  then show ?case by simp
next
  case (Suc n)
  then show ?case
    by (auto simp: and_then_def split: sum.splits if_splits prod.splits)
qed

lemma registration_zero:
  "max_iteration \<le> 0 \<Longrightarrow>
   registration env cpd target w max_iteration tol = initialize env cpd target"
  by (simp add: registration_def registration_counted_def and_then_def split: sum.splits)

lemma demo_init:
  "initialize demo_env (NonRigidCPD_init kernel_demo (Some (Array2 [[0]])) 2 2) (Array2 [[1]])
     = Inr (MstepResult (NonRigidTransformation [[1]] (Array1 [0])) (Finite 1) (Finite 1))"
  by (simp add: initialize_def NonRigidCPD_init_def demo_defs msn_spec_def np_log_def np_defs
      Let_def)

lemma demo_estep:
  "expectation_step spec_gauss (Array2 [[0]]) (Array2 [[1]]) 1 0
     = Inr (EstepResult [1] [1] [[1]] 1)"
  by (simp add: expectation_step_def spec_gauss_def gauss_sum_def gauss_sum2_def sqdist_def np_defs
      float_power_def clamp_zeros_def float32_eps_def Let_def exp_minus field_simps)

lemma demo_iteration:
  "em_iteration demo_env (NonRigidCPD_init kernel_demo (Some (Array2 [[0]])) 2 2) (Array2 [[1]]) 0
     (MstepResult (NonRigidTransformation [[1]] (Array1 [0])) (Finite 1) (Finite 1))
     = Inr (MstepResult (NonRigidTransformation [[1]] (Array2 [[1/3]]))
              (Finite (4/9)) (Finite (4/9)))"
proof -
  have t: "transform demo_env (NonRigidTransformation [[1]] (Array1 [0])) (Array2 [[0]])
             = Inr (Array2 [[0]])"
    by (simp add: demo_env_def np_defs)
  have g: "gauss demo_env = spec_gauss" "linalg_solve demo_env = solve_demo"
    by (simp_all add: demo_env_def)
  show ?thesis
    by (simp add: em_iteration_def NonRigidCPD_init_def t g demo_estep maximization_step_def
        nonrigid_demo_1 and_then_def sqdist_def)
qed

lemma demo_run:
  "registration_counted demo_env (NonRigidCPD_init kernel_demo (Some (Array2 [[0]])) 2 2)
     (Array2 [[1]]) 0 1 (1/1000)
     = Inr (MstepResult (NonRigidTransformation [[1]] (Array2 [[1/3]]))
              (Finite (4/9)) (Finite (4/9)), 1)"
  by (simp add: registration_counted_def demo_init demo_iteration and_then_def)

lemma demo_run_converged:
  "registration_counted demo_env (NonRigidCPD_init kernel_demo (Some (Array2 [[0]])) 2 2)
     (Array2 [[1]]) 0 5 1
     = Inr (MstepResult (NonRigidTransformation [[1]] (Array2 [[1/3]]))
              (Finite (4/9)) (Finite (4/9)), 1)"
  by (simp add: registration_counted_def demo_init demo_iteration and_then_def eval_nat_numeral)


lemma demo_iteration_fails:
  "em_iteration demo_env (NonRigidCPD_init kernel_demo (Some (Array2 [[0]])) 2 2) (Array2 [[1]]) 1
     (MstepResult (NonRigidTransformation [[1]] (Array1 [0])) (Finite 1) (Finite 1))
     = Inl ZeroDivisionError"
proof -
  have t: "transform demo_env (NonRigidTransformation [[1]] (Array1 [0])) (Array2 [[0]])
             = Inr (Array2 [[0]])"
    by (simp add: demo_env_def np_defs)
  show ?thesis
    by (simp add: em_iteration_def NonRigidCPD_init_def t expectation_step_def and_then_def)
qed

text \<open>
  C4. The driver always returns: a result or the error of a step.
  \<^item> If it returns a result after \<open>k\<close> passes, then \<open>k\<close> is at most
    \<open>max_iteration\<close>, the result is the estimate after \<open>k\<close> passes started from
    the initializer's result, no earlier pass met the convergence test, and if
    \<open>k\<close> is less than \<open>max_iteration\<close> then pass \<open>k\<close> met it: the loop leaves at
    the first pass whose objective differs from the previous one by less than
    the tolerance, and at the cap otherwise, which is a result and not an error.
  \<^item> If it returns an error, the error is that of the initializer or of a pass.
  \<^item> With \<open>max_iteration\<close> 0 (or less) it returns what the initializer returns,
    running no pass.
  \<^item> For a two-dimensional source and a positive initial variance \<open>sigma2_0\<close>
    the initializer returns the initial transformation of the variant (for
    the rigid one: identity rotation, zero translation, scale 1), \<open>sigma2_0\<close>
    and \<open>q_0 = 1 + M D / 2 log sigma2_0\<close>.
\<close>

theorem registration_within_budget:
  "(\<forall>r k. registration_counted env cpd target w max_iteration tol = Inr (r, k) \<longrightarrow>
      registration env cpd target w max_iteration tol = Inr r
      \<and> k \<le> nat max_iteration
      \<and> (\<exists>res0. initialize env cpd target = Inr res0
            \<and> em_results env cpd target w k res0 = Inr r
            \<and> (k < nat max_iteration \<longrightarrow> 0 < k \<and> converged_at env cpd target w tol res0 k)
            \<and> (\<forall>j. 0 < j \<and> j < k \<longrightarrow> \<not> converged_at env cpd target w tol res0 j)))
   \<and> (\<forall>e. registration_counted env cpd target w max_iteration tol = Inl e \<longrightarrow>
        registration env cpd target w max_iteration tol = Inl e
        \<and> (initialize env cpd target = Inl e
             \<or> (\<exists>r. em_iteration env cpd target w r = Inl e)))
   \<and> (max_iteration \<le> 0 \<longrightarrow>
        registration env cpd target w max_iteration tol = initialize env cpd target)
   \<and> (\<forall>s sigma2_0. source_of cpd = Some (Array2 s)
          \<and> msn_all_combination env (Array2 s) target = Inr sigma2_0 \<and> 0 < sigma2_0 \<longrightarrow>
        initialize env cpd target
          = and_then (initial_transformation cpd (shape1 s) (length s)) (\<lambda>tf.
              Inr (MstepResult tf (Finite sigma2_0)
                     (Finite (1 + real (shape0_of target) * real (shape1 s) / 2
                                    * ln sigma2_0)))))
   \<and> (\<forall>src D n. initial_transformation (RigidCPD src) D n
          = Inr (RigidTransformation (np_identity D) (replicate D (Finite 0)) (Finite 1)))"
proof -
  have a: "registration env cpd target w max_iteration tol = Inr r
      \<and> k \<le> nat max_iteration
      \<and> (\<exists>res0. initialize env cpd target = Inr res0
            \<and> em_results env cpd target w k res0 = Inr r
            \<and> (k < nat max_iteration \<longrightarrow> 0 < k \<and> converged_at env cpd target w tol res0 k)
            \<and> (\<forall>j. 0 < j \<and> j < k \<longrightarrow> \<not> converged_at env cpd target w tol res0 j))"
    if h: "registration_counted env cpd target w max_iteration tol = Inr (r, k)" for r k
  proof -
    from h obtain res0 where i: "initialize env cpd target = Inr res0"
      and l: "em_loop env cpd target w tol (nat max_iteration) res0 (q_of res0) = Inr (r, k)"
      by (auto simp: registration_counted_def and_then_def split: sum.splits)
    from h have "registration env cpd target w max_iteration tol = Inr r"
      by (simp add: registration_def and_then_def)
    with i em_loop_char [OF l] show ?thesis by blast
  qed
  have b: "registration env cpd target w max_iteration tol = Inl e
        \<and> (initialize env cpd target = Inl e
             \<or> (\<exists>r. em_iteration env cpd target w r = Inl e))"
    if h: "registration_counted env cpd target w max_iteration tol = Inl e" for e
  proof -
    from h have "registration env cpd target w max_iteration tol = Inl e"
      by (simp add: registration_def and_then_def)
    moreover from h have "initialize env cpd target = Inl e
        \<or> (\<exists>r. em_iteration env cpd target w r = Inl e)"
      by (auto simp: registration_counted_def and_then_def split: sum.splits
          dest: em_loop_error)
    ultimately show ?thesis by blast
  qed
  have c: "initialize env cpd target
          = and_then (initial_transformation cpd (shape1 s) (length s)) (\<lambda>tf.
              Inr (MstepResult tf (Finite sigma2_0)
                     (Finite (1 + real (shape0_of target) * real (shape1 s) / 2
                                    * ln sigma2_0))))"
    if "source_of cpd = Some (Array2 s)"
      "msn_all_combination env (Array2 s) target = Inr sigma2_0" "0 < sigma2_0" for s sigma2_0
    using that
    by (simp add: initialize_def and_then_def Let_def shape0_def np_log_def split: sum.splits)
  show ?thesis
    using a b c registration_zero by (simp add: default_scale_def)
qed

theorem registration_within_budget_witness:
  "registration demo_env (NonRigidCPD_init kernel_demo (Some (Array2 [[0]])) 2 2)
     (Array2 [[1]]) 0 5 1
     = Inr (MstepResult (NonRigidTransformation [[1]] (Array2 [[1/3]]))
              (Finite (4/9)) (Finite (4/9)))
   \<and> (1::nat) \<le> nat 5
   \<and> converged_at demo_env (NonRigidCPD_init kernel_demo (Some (Array2 [[0]])) 2 2)
        (Array2 [[1]]) 0 1
        (MstepResult (NonRigidTransformation [[1]] (Array1 [0])) (Finite 1) (Finite 1)) 1
   \<and> registration demo_env (NonRigidCPD_init kernel_demo (Some (Array2 [[0]])) 2 2)
        (Array2 [[1]]) 1 5 1 = Inl ZeroDivisionError
   \<and> registration demo_env (NonRigidCPD_init kernel_demo (Some (Array2 [[0]])) 2 2)
        (Array2 [[1]]) 0 0 1
     = Inr (MstepResult (NonRigidTransformation [[1]] (Array1 [0])) (Finite 1) (Finite 1))"
proof -
  let ?cpd = "NonRigidCPD_init kernel_demo (Some (Array2 [[0]])) 2 2"
  have e: "registration_counted demo_env ?cpd (Array2 [[1]]) 1 5 1 = Inl ZeroDivisionError"
    by (simp add: registration_counted_def demo_init demo_iteration_fails and_then_def
        eval_nat_numeral)
  show ?thesis
    using registration_within_budget [of demo_env ?cpd "Array2 [[1]]" 0 5 1]
      registration_within_budget [of demo_env ?cpd "Array2 [[1]]" 1 5 1]
      registration_within_budget [of demo_env ?cpd "Array2 [[1]]" 0 0 1]
    by (simp add: demo_run_converged e demo_init)
qed

subsection \<open>The expectation step\<close>

lemma is_mat_nth: "is_mat n m a \<Longrightarrow> i < n \<Longrightarrow> length (a ! i) = m"
  by (auto simp: is_mat_def list_all_length)

lemma is_mat_shape1: "is_mat n m a \<Longrightarrow> 0 < n \<Longrightarrow> shape1 a = m"
  by (cases a) (auto simp: is_mat_def shape1_def)

lemma is_mat_length: "is_mat n m a \<Longrightarrow> length a = n"
  by (simp add: is_mat_def)


lemma is_mat_transpose:
  "is_mat M D x \<Longrightarrow> 0 < M \<Longrightarrow> is_mat D M (np_transpose x)"
  by (auto simp: is_mat_def np_transpose_def col_def list_all_length is_mat_shape1 [unfolded is_mat_def])


lemma clamp_zeros_pos:
  "\<forall>k\<in>set kt1. 0 \<le> k \<Longrightarrow> 0 \<le> c \<Longrightarrow> \<forall>k\<in>set (clamp_zeros kt1). 0 < k + c"
  by (auto simp: clamp_zeros_def float32_eps_def intro: add_pos_nonneg)

lemma float_power_nonneg: "0 \<le> float_power x y"
  by (simp add: float_power_def)

lemma code_c_nonneg:
  "0 \<le> w \<Longrightarrow> w < 1 \<Longrightarrow>
   0 \<le> float_power (2 * pi * sigma2) (real D * 0.5) * (w / (1 - w) * real N / real M)"
  by (intro mult_nonneg_nonneg divide_nonneg_nonneg float_power_nonneg) simp_all






text \<open>
  C7, amended. The expectation step replaces every kernel sum that is
  exactly zero by the machine epsilon of single precision,
  \<open>np.finfo(np.float32).eps = 2^-23\<close>, and leaves the others; the vector keeps
  its length. For non-negative kernel sums and \<open>c \<ge> 0\<close> every denominator
  \<open>kt1 + c\<close> is then positive. For \<open>0 \<le> w < 1\<close>, \<open>sigma2 > 0\<close>, a non-empty
  target and a kernel transform with non-negative sums, the constant \<open>c\<close> of
  the step is not negative and the step neither divides by zero nor leaves
  the real numbers.
\<close>

theorem clamp_guards_division:
  "length (clamp_zeros kt1) = length kt1
   \<and> (\<forall>i<length kt1. clamp_zeros kt1 ! i = (if kt1 ! i = 0 then float32_eps else kt1 ! i))
   \<and> float32_eps = 1 / 2 ^ 23
   \<and> ((\<forall>k\<in>set kt1. 0 \<le> k) \<and> 0 \<le> c \<longrightarrow> (\<forall>k\<in>set (clamp_zeros kt1). 0 < k + c))
   \<and> (0 \<le> w \<and> w < 1 \<and> 0 < sigma2 \<and> x \<noteq> []
        \<and> (\<forall>k\<in>set (compute gt ts (sqrt (2 * sigma2)) x None). 0 \<le> k) \<longrightarrow>
          0 \<le> float_power (2 * pi * sigma2) (real (shape1 ts) * 0.5)
                 * (w / (1 - w) * real (shape0 ts) / real (shape0 x))
        \<and> expectation_step gt (Array2 ts) (Array2 x) sigma2 w \<noteq> Inl NonFinite
        \<and> expectation_step gt (Array2 ts) (Array2 x) sigma2 w \<noteq> Inl ZeroDivisionError)"
proof -
  have e: "expectation_step gt (Array2 ts) (Array2 x) sigma2 w \<noteq> Inl NonFinite
        \<and> expectation_step gt (Array2 ts) (Array2 x) sigma2 w \<noteq> Inl ZeroDivisionError"
    if w: "0 \<le> w" "w < 1" and s: "0 < sigma2" and x: "x \<noteq> []"
      and nn: "\<forall>k\<in>set (compute gt ts (sqrt (2 * sigma2)) x None). 0 \<le> k"
  proof -
    let ?c = "float_power (2 * pi * sigma2) (real (shape1 ts) * 0.5)
                * (w / (1 - w) * real (shape0 ts) / real (shape0 x))"
    have c0: "0 \<le> ?c" using w by (rule code_c_nonneg)
    have "\<forall>k\<in>set (clamp_zeros (compute gt ts (sqrt (2 * sigma2)) x None)). 0 < k + ?c"
      using nn c0 by (rule clamp_zeros_pos)
    then have nz: "\<not> (\<exists>k\<in>set (clamp_zeros (compute gt ts (sqrt (2 * sigma2)) x None)).
                        k + ?c = 0)"
      by force
    have ok: "1 - w \<noteq> 0" "shape0 x \<noteq> 0" "\<not> sigma2 < 0"
      using w s x by (simp_all add: shape0_def)
    show ?thesis
      unfolding expectation_step_def Let_def
      using nz ok by (simp add: and_then_def broadcast2_def Let_def split: sum.splits)
  qed
  have 1: "length (clamp_zeros kt1) = length kt1" by (simp add: clamp_zeros_def)
  have 2: "\<forall>i<length kt1. clamp_zeros kt1 ! i = (if kt1 ! i = 0 then float32_eps else kt1 ! i)"
    by (simp add: clamp_zeros_def)
  have 3: "float32_eps = 1 / 2 ^ 23" by (simp only: float32_eps_def)
  have 4: "(\<forall>k\<in>set kt1. 0 \<le> k) \<and> 0 \<le> c \<longrightarrow> (\<forall>k\<in>set (clamp_zeros kt1). 0 < k + c)"
    using clamp_zeros_pos [of kt1 c] by blast
  have 5: "0 \<le> w \<and> w < 1 \<longrightarrow>
          0 \<le> float_power (2 * pi * sigma2) (real (shape1 ts) * 0.5)
                 * (w / (1 - w) * real (shape0 ts) / real (shape0 x))"
    using code_c_nonneg [of w sigma2 "shape1 ts" "shape0 ts" "shape0 x"] by blast
  show ?thesis
    using 1 2 3 4 5 e by blast
qed

theorem clamp_guards_division_witness:
  "clamp_zeros [0, 2] = [1 / 2 ^ 23, 2]
   \<and> 0 < clamp_zeros [0, 2] ! 0 + 0 \<and> 0 < clamp_zeros [0, 2] ! 1 + 0
   \<and> expectation_step underflow_gauss (Array2 [[0]]) (Array2 [[1]]) 1 0
       = Inr (EstepResult [1] [0] [[0]] 0)
   \<and> expectation_step underflow_gauss (Array2 [[0]]) (Array2 [[1]]) 1 0 \<noteq> Inl NonFinite"
proof -
  have a: "clamp_zeros [0, 2] = [1 / 2 ^ 23, 2]"
    by (simp add: clamp_zeros_def float32_eps_def)
  have b: "expectation_step underflow_gauss (Array2 [[0]]) (Array2 [[1]]) 1 0
       = Inr (EstepResult [1] [0] [[0]] 0)"
    by (simp add: clamp_zeros_def float32_eps_def underflow_gauss_def expectation_step_def
      np_defs float_power_def Let_def)
  have h: "\<forall>k\<in>set (compute underflow_gauss [[0]] (sqrt (2 * 1)) [[1]] None). 0 \<le> k"
    by (simp add: underflow_gauss_def)
  have h2: "\<forall>k\<in>set [0, 2::real]. 0 \<le> k" by simp
  note t = clamp_guards_division [of "[0, 2]" 0 0 1 "[[1]]" underflow_gauss "[[0]]"]
  from t h2 have "\<forall>k\<in>set (clamp_zeros [0, 2]). 0 < k + 0" by blast
  then have c: "0 < clamp_zeros [0, 2] ! 0 + 0 \<and> 0 < clamp_zeros [0, 2] ! 1 + 0"
    by (simp add: clamp_zeros_def)
  from t h have d: "expectation_step underflow_gauss (Array2 [[0]]) (Array2 [[1]]) 1 0 \<noteq> Inl NonFinite"
    by simp
  show ?thesis using a b c d by blast
qed

theorem clamp_value_counterexample:
  "clamp_zeros [0] = [float32_eps] \<and> 0 < float32_tiny \<and> float32_tiny < float32_eps"
  by (simp add: clamp_zeros_def float32_eps_def float32_tiny_def)


subsection \<open>The entry point\<close>

lemma make_cpd_ValueError:
  "make_cpd env name source kargs = Inl ValueError
     \<longleftrightarrow> name \<noteq> ''rigid'' \<and> name \<noteq> ''affine'' \<and> name \<noteq> ''nonrigid''"
  by (simp add: make_cpd_def)

lemma estep_AssertionError:
  "expectation_step gt t_source tgt sigma2 w = Inl AssertionError
     \<longleftrightarrow> ndim_of t_source \<noteq> 2 \<or> ndim_of tgt \<noteq> 2"
proof (cases t_source)
  case (Array1 v)
  then show ?thesis by (simp add: expectation_step_def)
next
  case ts: (Array2 ts)
  show ?thesis
  proof (cases tgt)
    case (Array1 v)
    with ts show ?thesis by (simp add: expectation_step_def)
  next
    case (Array2 x)
    with ts show ?thesis
      by (simp add: expectation_step_def Let_def and_then_def broadcast2_def split: sum.splits)
  qed
qed

lemma rigid_init_demo:
  "initialize demo_env (RigidCPD (Some (Array2 [[0]]))) (Array2 [[1]])
     = Inr (MstepResult (RigidTransformation [[1]] [Finite 0] (Finite 1)) (Finite 1) (Finite 1))"
  by (simp add: initialize_def demo_defs msn_spec_def np_log_def np_defs default_scale_def Let_def)

lemma initialize_1d_source:
  "initialize env (RigidCPD (Some (Array1 v))) target = Inl IndexError"
  "initialize env (AffineCPD (Some (Array1 v))) target = Inl IndexError"
  by (simp_all add: initialize_def)

text \<open>
  C8, amended. The entry point raises \<open>ValueError\<close> exactly when the name of
  the variant is none of \<open>rigid\<close>, \<open>affine\<close>, \<open>nonrigid\<close>, and then does so
  whatever the point sets and the iteration budget are, before a registrar is
  built. For a known name it hands the arrays to the registrar unchecked. The
  only check on the point sets is the assertion at the head of the expectation
  step: it fails, with an \<open>AssertionError\<close>, exactly when one of the two arrays
  is not two-dimensional; it compares no dimensionalities, and a run without
  passes (\<open>max_iteration\<close> 0) is the initializer alone and never reaches it.
  A one-dimensional source makes the rigid and the affine variant fail in the
  initializer, with the \<open>IndexError\<close> of \<open>shape[1]\<close>, whatever the collaborators
  are.
\<close>

theorem entry_point_checks:
  "(make_cpd env name source kargs = Inl ValueError
      \<longleftrightarrow> name \<noteq> ''rigid'' \<and> name \<noteq> ''affine'' \<and> name \<noteq> ''nonrigid'')
   \<and> (name \<noteq> ''rigid'' \<and> name \<noteq> ''affine'' \<and> name \<noteq> ''nonrigid'' \<longrightarrow>
        registration_cpd env source target name w max_iteration tol kargs = Inl ValueError)
   \<and> registration_cpd env source target ''rigid'' w max_iteration tol []
        = registration env (RigidCPD (Some source)) target w max_iteration tol
   \<and> registration_cpd env source target ''affine'' w max_iteration tol []
        = registration env (AffineCPD (Some source)) target w max_iteration tol
   \<and> registration_cpd env source target ''nonrigid'' w max_iteration tol []
        = registration env (NonRigidCPD_init (gaussian_kernel env) (Some source) 2 2)
            target w max_iteration tol
   \<and> (expectation_step gt t_source tgt sigma2 w' = Inl AssertionError
        \<longleftrightarrow> ndim_of t_source \<noteq> 2 \<or> ndim_of tgt \<noteq> 2)
   \<and> (max_iteration \<le> 0 \<longrightarrow>
        registration env cpd target w max_iteration tol = initialize env cpd target)
   \<and> registration_cpd env (Array1 v) target ''rigid'' w max_iteration tol [] = Inl IndexError
   \<and> registration_cpd env (Array1 v) target ''affine'' w max_iteration tol [] = Inl IndexError"
proof -
  have a: "registration_cpd env source target name w max_iteration tol kargs = Inl ValueError"
    if "name \<noteq> ''rigid'' \<and> name \<noteq> ''affine'' \<and> name \<noteq> ''nonrigid''"
    using that by (simp add: registration_cpd_def make_cpd_def and_then_def)
  have b: "registration_cpd env source target ''rigid'' w max_iteration tol []
        = registration env (RigidCPD (Some source)) target w max_iteration tol"
    "registration_cpd env source target ''affine'' w max_iteration tol []
        = registration env (AffineCPD (Some source)) target w max_iteration tol"
    "registration_cpd env source target ''nonrigid'' w max_iteration tol []
        = registration env (NonRigidCPD_init (gaussian_kernel env) (Some source) 2 2)
            target w max_iteration tol"
    by (simp_all add: registration_cpd_def make_cpd_def and_then_def kwarg_def)
  have c: "max_iteration \<le> 0 \<longrightarrow>
        registration env cpd target w max_iteration tol = initialize env cpd target"
    by (simp add: registration_def registration_counted_def and_then_def split: sum.splits)
  have d: "registration_cpd env (Array1 v) target ''rigid'' w max_iteration tol [] = Inl IndexError"
    "registration_cpd env (Array1 v) target ''affine'' w max_iteration tol [] = Inl IndexError"
    by (simp_all add: registration_cpd_def make_cpd_def registration_def registration_counted_def
        initialize_1d_source and_then_def)
  show ?thesis
    using make_cpd_ValueError [of env name source kargs] a b c d
      estep_AssertionError [of gt t_source tgt sigma2 w']
    by blast
qed

theorem entry_point_checks_witness:
  "registration_cpd demo_env (Array2 [[0]]) (Array2 [[1]]) ''bogus'' 0 5 1 [] = Inl ValueError
   \<and> make_cpd demo_env ''bogus'' (Array2 [[0]]) [] = Inl ValueError
   \<and> make_cpd demo_env ''rigid'' (Array2 [[0]]) [] \<noteq> Inl ValueError
   \<and> expectation_step spec_gauss (Array2 [[0]]) (Array1 [1]) 1 0 = Inl AssertionError
   \<and> expectation_step spec_gauss (Array2 [[0]]) (Array2 [[1]]) 1 0 \<noteq> Inl AssertionError
   \<and> registration demo_env (RigidCPD (Some (Array2 [[0]]))) (Array2 [[1]]) 0 0 1
       = Inr (MstepResult (RigidTransformation [[1]] [Finite 0] (Finite 1)) (Finite 1) (Finite 1))"
  using entry_point_checks [of demo_env "''bogus''" "Array2 [[0]]" "[]" "Array2 [[1]]" 0 5 1
          spec_gauss "Array2 [[0]]" "Array1 [1]" 1 0 "RigidCPD None"]
    entry_point_checks [of demo_env "''rigid''" "Array2 [[0]]" "[]" "Array2 [[1]]" 0 0 1
          spec_gauss "Array2 [[0]]" "Array2 [[1]]" 1 0 "RigidCPD (Some (Array2 [[0]]))"]
  by (simp add: rigid_init_demo)

text \<open>
  A source that is not two-dimensional, with a known name: the entry point
  fails, before any pass, with \<open>IndexError\<close> and not with \<open>ValueError\<close>.
\<close>

theorem entry_point_checks_counterexample:
  "registration_cpd demo_env (Array1 [0, 1]) (Array2 [[0], [1]]) ''rigid'' 0 5 (1 / 1000) []
     = Inl IndexError
   \<and> ndim_of (Array1 [0, 1]) \<noteq> 2
   \<and> IndexError \<noteq> ValueError"
  by (simp add: registration_cpd_def make_cpd_def registration_def registration_counted_def
      initialize_def and_then_def)

subsection \<open>The right-hand side of the non-rigid system\<close>

lemma nonrigid_3x2:
  "nonrigid_maximization_step solve_demo [[0, 0], [1, 0], [0, 1]] [[0, 0], [1, 0], [0, 1]]
     (EstepResult [1, 1, 1] [1, 1, 1] [[0, 0], [1, 0], [0, 1]] 3) (Some 1) (np_identity 3) 2
     = Inl ValueError"
  by (simp add: nonrigid_maximization_step_def np_defs Let_def eval_nat_numeral)

lemma nonrigid_2x2:
  "nonrigid_maximization_step solve_demo [[0, 0], [0, 0]] [[1, 2], [3, 4]]
     (EstepResult [1, 1] [1, 1] [[1, 2], [3, 4]] 2) (Some 1) (np_identity 2) 2
     = Inr (MstepResult (NonRigidTransformation (np_identity 2) (Array2 [[1 / 3, 0], [0, 4 / 3]]))
              (Finite (185 / 36)) (Finite (185 / 36)))"
  by (simp add: nonrigid_maximization_step_def np_defs demo_defs Let_def eval_nat_numeral
      power2_eq_square)

text \<open>
  C2. The claim takes the right-hand side of the linear system to be the
  matrix product of \<open>diag(1/p1)\<close> and \<open>px\<close>, minus the source. The step writes
  \<open>dp1_inv * px\<close>, which NumPy evaluates elementwise with broadcasting. For a
  source of three points in the plane the operands have the shapes \<open>3 \<times> 3\<close>
  and \<open>3 \<times> 2\<close> and the step raises \<open>ValueError\<close>. For two points in the plane
  the shapes agree, the elementwise product keeps only the diagonal of \<open>px\<close>,
  and the returned \<open>W\<close> does not solve the system of the claim.
\<close>

theorem nonrigid_rhs_elementwise:
  "nonrigid_maximization_step solve_demo [[0, 0], [1, 0], [0, 1]] [[0, 0], [1, 0], [0, 1]]
     (EstepResult [1, 1, 1] [1, 1, 1] [[0, 0], [1, 0], [0, 1]] 3) (Some 1) (np_identity 3) 2
     = Inl ValueError
   \<and> broadcast2 (*) (np_diag [1, 1, 1]) [[0, 0], [1, 0], [0, 1]] = Inl ValueError
   \<and> nonrigid_maximization_step solve_demo [[0, 0], [0, 0]] [[1, 2], [3, 4]]
        (EstepResult [1, 1] [1, 1] [[1, 2], [3, 4]] 2) (Some 1) (np_identity 2) 2
     = Inr (MstepResult (NonRigidTransformation (np_identity 2) (Array2 [[1 / 3, 0], [0, 4 / 3]]))
              (Finite (185 / 36)) (Finite (185 / 36)))
   \<and> broadcast2 (*) (np_diag [1, 1]) [[1, 2], [3, 4]] = Inr [[1, 0], [0, 4]]
   \<and> np_dot (np_diag [1, 1]) [[1, 2], [3, 4]] = [[1, 2], [3, 4]]
   \<and> np_dot [[3, 0], [0, 3]] [[1 / 3, 0], [0, 4 / 3]] \<noteq> [[1, 2], [3, 4]]"
  using nonrigid_3x2 nonrigid_2x2
  by (simp add: np_defs eval_nat_numeral)

subsection \<open>The variance\<close>

lemma det_1: "linalg_det [[x]] = x"
  by (simp add: linalg_det_def entries_def)

lemma rigid_demo:
  "rigid_maximization_step svd_demo [[0], [2]] [[0], [2]]
     (EstepResult [1, 1] [1, 1] [[1 / 2], [3 / 2]] 2) None
     = Inr (MstepResult (RigidTransformation [[1]] [Finite (1 / 2)] (Finite (1 / 2)))
              (Finite (3 / 4)) (Finite (1 + ln (3 / 4))))"
  by (simp add: rigid_maximization_step_def np_defs demo_defs det_1 Let_def power2_eq_square)

lemma rigid_exact_fit:
  "rigid_maximization_step svd_demo [[0], [2]] [[0], [2]]
     (EstepResult [1, 1] [1, 1] [[0], [2]] 2) None
     = Inr (MstepResult (RigidTransformation [[1]] [Finite 0] (Finite 1)) (Finite 0) NanOrInf)"
  by (simp add: rigid_maximization_step_def np_defs demo_defs det_1 Let_def power2_eq_square)

lemma affine_exact_fit:
  "affine_maximization_step solve_demo [[0], [2]] [[0], [2]]
     (EstepResult [1, 1] [1, 1] [[0], [2]] 2) None
     = Inr (MstepResult (AffineTransformation [[1]] [0]) (Finite 0) NanOrInf)"
  by (simp add: affine_maximization_step_def demo_defs np_defs Let_def power2_eq_square)

lemma estep_coincident:
  "expectation_step spec_gauss (Array2 [[0]]) (Array2 [[0]]) 1 0
     = Inr (EstepResult [1] [1] [[0]] 1)"
  by (simp add: expectation_step_def spec_gauss_def gauss_sum_def gauss_sum2_def sqdist_def np_defs
      float_power_def clamp_zeros_def float32_eps_def Let_def)

lemma nonrigid_coincident:
  "nonrigid_maximization_step solve_demo [[0]] [[0]] (EstepResult [1] [1] [[0]] 1) (Some 1) [[1]] 2
     = Inr (MstepResult (NonRigidTransformation [[1]] (Array2 [[0]])) (Finite 0) (Finite 0))"
  by (simp add: nonrigid_maximization_step_def demo_defs np_defs Let_def)

lemma np_divide_Finite:
  "np_divide (Finite x) y = Finite s \<longleftrightarrow> y \<noteq> 0 \<and> s = x / y"
  by auto

lemma objective_real:
  "objective (Finite num) sigma2 k \<noteq> NanOrInf \<longleftrightarrow> (\<exists>s. sigma2 = Finite s \<and> 0 < s)"
  by (cases sigma2) simp_all

lemma rigid_objective_real:
  "sigma2 = np_divide (f_sub (Finite X) (f_mul scale (Finite A))) d \<Longrightarrow>
   q = objective (f_add (f_sub (Finite X) (f_mul (f_mul (Finite 2) scale) (Finite A)))
                    (f_mul (f_mul scale scale) (Finite Y))) sigma2 k \<Longrightarrow>
   q \<noteq> NanOrInf \<longleftrightarrow> (\<exists>s. sigma2 = Finite s \<and> 0 < s)"
  by (cases scale) (simp_all add: objective_real)

lemma rigid_step_returns:
  "n_p \<noteq> 0 \<Longrightarrow> 0 < shape1 source \<Longrightarrow>
   svd (cross_covariance source p1 px n_p) = Inr dec \<Longrightarrow>
   \<exists>r. rigid_maximization_step svd source target (EstepResult pt1 p1 px n_p) sigma2_p = Inr r"
  by (cases dec)
     (simp add: rigid_maximization_step_def cross_covariance_def centroid_x_def centroid_y_def
        Let_def and_then_def)

lemma affine_step_returns:
  "n_p \<noteq> 0 \<Longrightarrow>
   solve (np_transpose (yp1y_of source p1 n_p))
     (np_transpose (cross_covariance source p1 px n_p)) = Inr bt \<Longrightarrow>
   \<exists>r. affine_maximization_step solve source target (EstepResult pt1 p1 px n_p) sigma2_p = Inr r"
  by (simp add: affine_maximization_step_def cross_covariance_def yp1y_of_def centroid_x_def
        centroid_y_def Let_def and_then_def)

lemma quotient_sign:
  fixes x y :: real
  shows "y \<noteq> 0 \<Longrightarrow> (0 < x / y \<longleftrightarrow> 0 < x * y) \<and> (x / y = 0 \<longleftrightarrow> x = 0)"
  by (auto simp: zero_less_divide_iff zero_less_mult_iff)

text \<open>
  The variance of a result can be zero. For a source point and a target point
  that coincide, the expectation step followed by the non-rigid maximization
  step returns the variance 0. For two source points fitted exactly, the rigid
  and the affine step return the variance 0, and an objective that is no real
  number.
\<close>

theorem sigma2_zero_counterexample:
  "expectation_step spec_gauss (Array2 [[0]]) (Array2 [[0]]) 1 0
     = Inr (EstepResult [1] [1] [[0]] 1)
   \<and> nonrigid_maximization_step solve_demo [[0]] [[0]] (EstepResult [1] [1] [[0]] 1) (Some 1) [[1]] 2
     = Inr (MstepResult (NonRigidTransformation [[1]] (Array2 [[0]])) (Finite 0) (Finite 0))
   \<and> rigid_maximization_step svd_demo [[0], [2]] [[0], [2]]
        (EstepResult [1, 1] [1, 1] [[0], [2]] 2) None
     = Inr (MstepResult (RigidTransformation [[1]] [Finite 0] (Finite 1)) (Finite 0) NanOrInf)
   \<and> affine_maximization_step solve_demo [[0], [2]] [[0], [2]]
        (EstepResult [1, 1] [1, 1] [[0], [2]] 2) None
     = Inr (MstepResult (AffineTransformation [[1]] [0]) (Finite 0) NanOrInf)
   \<and> sigma2_of (MstepResult (RigidTransformation [[1]] [Finite 0] (Finite 1)) (Finite 0) NanOrInf)
     = Finite 0
   \<and> \<not> (0::real) < 0"
  using estep_coincident nonrigid_coincident rigid_exact_fit affine_exact_fit by simp

text \<open>
  C6, amended. No initializer and no maximization step guards the variance:
  each returns it as computed.
  \<^item> The rigid step returns the quotient \<open>(tr_xp1x - scale tr_atr) / (n_p D)\<close>,
    the affine step \<open>(tr_xp1x - tr_ab) / (n_p D)\<close>, the non-rigid step
    \<open>(tr_xp1x - 2 tr_pxtt + tr_ttp1t) / (n_p D)\<close>, the latter also as its
    objective.
  \<^item> The initializer returns the value of \<open>msn_all_combination\<close> unchanged.
  \<^item> Such a quotient is a real number exactly when the divisor is not 0; it
    is then positive exactly when numerator and divisor have the same sign,
    and 0 exactly when the numerator is 0.
  \<^item> The objective of the rigid step, of the affine step and of the
    initializer is a real number exactly when the variance is a positive real
    number.
  \<^item> The rigid step returns a result whenever \<open>n_p\<close> is not 0, the source has
    columns and the decomposition succeeds, the affine step whenever \<open>n_p\<close> is
    not 0 and the solver succeeds: no value of the variance stops them.
\<close>

theorem sigma2_unguarded:
  "(rigid_maximization_step svd source target (EstepResult pt1 p1 px n_p) sigma2_p
        = Inr (MstepResult (RigidTransformation rot tr scale) sigma2 q) \<longrightarrow>
      sigma2 = np_divide
                 (f_sub (Finite (tr_xp1x_of target pt1 px n_p))
                    (f_mul scale
                       (Finite (trace (np_dot (np_transpose
                                                 (cross_covariance source p1 px n_p)) rot)))))
                 (n_p * real (shape1 source))
      \<and> (q \<noteq> NanOrInf \<longleftrightarrow> (\<exists>s. sigma2 = Finite s \<and> 0 < s)))
   \<and> (affine_maximization_step solve source target (EstepResult pt1 p1 px n_p) sigma2_p
        = Inr (MstepResult (AffineTransformation b ta) sigma2a qa) \<longrightarrow>
      sigma2a = np_divide
                  (Finite (tr_xp1x_of target pt1 px n_p
                           - trace (np_dot (cross_covariance source p1 px n_p)
                                      (np_transpose b))))
                  (n_p * real (shape1 source))
      \<and> (qa \<noteq> NanOrInf \<longleftrightarrow> (\<exists>s. sigma2a = Finite s \<and> 0 < s)))
   \<and> (nonrigid_maximization_step solve source target (EstepResult pt1 p1 px n_p) sigma2_p g lmd
         = Inr res \<longrightarrow>
        q_of res = sigma2_of res
        \<and> (\<exists>w t. transformation_of res = NonRigidTransformation g (Array2 w)
              \<and> broadcast2 (+) source (np_dot g w) = Inr t
              \<and> sigma2_of res
                   = np_divide
                       (Finite (trace (np_dot (with_rows (*) (np_transpose target) pt1) target)
                                - 2 * trace (np_dot (np_transpose px) t)
                                + trace (np_dot (with_rows (*) (np_transpose t) p1) t)))
                       (n_p * real (shape1 source))))
   \<and> (initialize env cpd tgt = Inr res0 \<longrightarrow>
        (\<exists>src s. source_of cpd = Some (Array2 src)
              \<and> msn_all_combination env (Array2 src) tgt = Inr s
              \<and> sigma2_of res0 = Finite s
              \<and> (q_of res0 \<noteq> NanOrInf \<longleftrightarrow> 0 < s)))
   \<and> (np_divide (Finite x) y = NanOrInf \<longleftrightarrow> y = 0)
   \<and> (np_divide (Finite x) y = Finite v \<longrightarrow>
        y \<noteq> 0 \<and> v = x / y \<and> (0 < v \<longleftrightarrow> 0 < x * y) \<and> (v = 0 \<longleftrightarrow> x = 0))
   \<and> (n_p \<noteq> 0 \<and> 0 < shape1 source
        \<and> svd (cross_covariance source p1 px n_p) = Inr dec \<longrightarrow>
        (\<exists>r. rigid_maximization_step svd source target (EstepResult pt1 p1 px n_p) sigma2_p
               = Inr r))
   \<and> (n_p \<noteq> 0
        \<and> solve (np_transpose (yp1y_of source p1 n_p))
             (np_transpose (cross_covariance source p1 px n_p)) = Inr bt \<longrightarrow>
        (\<exists>r. affine_maximization_step solve source target (EstepResult pt1 p1 px n_p) sigma2_p
               = Inr r))"
proof -
  have r: "sigma2 = np_divide
                 (f_sub (Finite (tr_xp1x_of target pt1 px n_p))
                    (f_mul scale
                       (Finite (trace (np_dot (np_transpose
                                                 (cross_covariance source p1 px n_p)) rot)))))
                 (n_p * real (shape1 source))
      \<and> (q \<noteq> NanOrInf \<longleftrightarrow> (\<exists>s. sigma2 = Finite s \<and> 0 < s))"
    if h: "rigid_maximization_step svd source target (EstepResult pt1 p1 px n_p) sigma2_p
        = Inr (MstepResult (RigidTransformation rot tr scale) sigma2 q)"
  proof -
    let ?num = "f_sub (Finite (tr_xp1x_of target pt1 px n_p))
                    (f_mul scale
                       (Finite (trace (np_dot (np_transpose
                                                 (cross_covariance source p1 px n_p)) rot))))"
    let ?yh = "with_rows (-) source (centroid_y source p1 n_p)"
    let ?A = "trace (np_dot (np_transpose (cross_covariance source p1 px n_p)) rot)"
    from h have
      s: "sigma2 = np_divide ?num (n_p * real (shape1 source))"
      and q: "q = objective
                    (f_add (f_sub (Finite (tr_xp1x_of target pt1 px n_p))
                              (f_mul (f_mul (Finite 2) scale) (Finite ?A)))
                       (f_mul (f_mul scale scale)
                          (Finite (trace (np_dot (with_rows (*) (np_transpose ?yh) p1) ?yh)))))
                    sigma2 (real (shape1 source) * n_p * 0.5)"
      by (auto simp: rigid_maximization_step_def cross_covariance_def tr_xp1x_of_def
            centroid_x_def centroid_y_def Let_def and_then_def
            split: if_splits sum.splits prod.splits)
    have "q \<noteq> NanOrInf \<longleftrightarrow> (\<exists>s. sigma2 = Finite s \<and> 0 < s)"
      using s q by (rule rigid_objective_real)
    with s show ?thesis by blast
  qed
  have a: "sigma2a = np_divide
                  (Finite (tr_xp1x_of target pt1 px n_p
                           - trace (np_dot (cross_covariance source p1 px n_p)
                                      (np_transpose b))))
                  (n_p * real (shape1 source))
      \<and> (qa \<noteq> NanOrInf \<longleftrightarrow> (\<exists>s. sigma2a = Finite s \<and> 0 < s))"
    if h: "affine_maximization_step solve source target (EstepResult pt1 p1 px n_p) sigma2_p
        = Inr (MstepResult (AffineTransformation b ta) sigma2a qa)"
  proof -
    from h obtain num2 where
      s: "sigma2a = np_divide
                  (Finite (tr_xp1x_of target pt1 px n_p
                           - trace (np_dot (cross_covariance source p1 px n_p)
                                      (np_transpose b))))
                  (n_p * real (shape1 source))"
      and q: "qa = objective (Finite num2) sigma2a (real (shape1 source) * n_p * 0.5)"
      by (auto simp: affine_maximization_step_def cross_covariance_def tr_xp1x_of_def
            centroid_x_def centroid_y_def Let_def and_then_def
            split: if_splits sum.splits)
    show ?thesis using s unfolding q by (simp add: objective_real)
  qed
  have n: "q_of res = sigma2_of res
        \<and> (\<exists>w t. transformation_of res = NonRigidTransformation g (Array2 w)
              \<and> broadcast2 (+) source (np_dot g w) = Inr t
              \<and> sigma2_of res
                   = np_divide
                       (Finite (trace (np_dot (with_rows (*) (np_transpose target) pt1) target)
                                - 2 * trace (np_dot (np_transpose px) t)
                                + trace (np_dot (with_rows (*) (np_transpose t) p1) t)))
                       (n_p * real (shape1 source)))"
    if h: "nonrigid_maximization_step solve source target (EstepResult pt1 p1 px n_p) sigma2_p g lmd
         = Inr res"
    using h
    by (auto simp: nonrigid_maximization_step_def Let_def and_then_def
          split: if_splits sum.splits option.splits)
  have i: "\<exists>src s. source_of cpd = Some (Array2 src)
              \<and> msn_all_combination env (Array2 src) tgt = Inr s
              \<and> sigma2_of res0 = Finite s
              \<and> (q_of res0 \<noteq> NanOrInf \<longleftrightarrow> 0 < s)"
    if "initialize env cpd tgt = Inr res0"
    using that
    by (auto simp: initialize_def Let_def and_then_def np_log_def
          split: if_splits sum.splits option.splits ndarray.splits)
  have d: "np_divide (Finite x) y = NanOrInf \<longleftrightarrow> y = 0" by simp
  have e: "y \<noteq> 0 \<and> v = x / y \<and> (0 < v \<longleftrightarrow> 0 < x * y) \<and> (v = 0 \<longleftrightarrow> x = 0)"
    if h: "np_divide (Finite x) y = Finite v"
  proof -
    from h have y: "y \<noteq> 0" and v: "v = x / y" by (simp_all split: if_splits)
    show ?thesis using quotient_sign [OF y, of x] y unfolding v by blast
  qed
  note f = rigid_step_returns [of n_p source svd p1 px dec target pt1 sigma2_p]
  note g = affine_step_returns [of n_p solve source p1 px bt target pt1 sigma2_p]
  show ?thesis using r a n i d e f g by blast
qed

theorem sigma2_unguarded_witness:
  "rigid_maximization_step svd_demo [[0], [2]] [[0], [2]]
     (EstepResult [1, 1] [1, 1] [[1 / 2], [3 / 2]] 2) None
     = Inr (MstepResult (RigidTransformation [[1]] [Finite (1 / 2)] (Finite (1 / 2)))
              (Finite (3 / 4)) (Finite (1 + ln (3 / 4))))
   \<and> Finite (3 / 4)
       = np_divide
           (f_sub (Finite (tr_xp1x_of [[0], [2]] [1, 1] [[1 / 2], [3 / 2]] 2))
              (f_mul (Finite (1 / 2))
                 (Finite (trace (np_dot (np_transpose
                     (cross_covariance [[0], [2]] [1, 1] [[1 / 2], [3 / 2]] 2)) [[1]])))))
           (2 * real (shape1 [[0], [2]]))
   \<and> affine_maximization_step solve_demo [[0], [2]] [[0], [2]]
        (EstepResult [1, 1] [1, 1] [[1 / 2], [3 / 2]] 2) None
     = Inr (MstepResult (AffineTransformation [[1 / 2]] [1 / 2])
              (Finite (3 / 4)) (Finite (1 + ln (3 / 4))))
   \<and> Finite (3 / 4)
       = np_divide
           (Finite (tr_xp1x_of [[0], [2]] [1, 1] [[1 / 2], [3 / 2]] 2
                    - trace (np_dot (cross_covariance [[0], [2]] [1, 1] [[1 / 2], [3 / 2]] 2)
                               (np_transpose [[1 / 2]]))))
           (2 * real (shape1 [[0], [2]]))
   \<and> nonrigid_maximization_step solve_demo [[0]] [[1]] (EstepResult [1] [1] [[1]] 1) (Some 1)
        [[1]] 2
     = Inr (MstepResult (NonRigidTransformation [[1]] (Array2 [[1 / 3]]))
              (Finite (4 / 9)) (Finite (4 / 9)))
   \<and> q_of (MstepResult (NonRigidTransformation [[1]] (Array2 [[1 / 3]]))
             (Finite (4 / 9)) (Finite (4 / 9)))
       = sigma2_of (MstepResult (NonRigidTransformation [[1]] (Array2 [[1 / 3]]))
                      (Finite (4 / 9)) (Finite (4 / 9)))
   \<and> rigid_maximization_step svd_demo [[0], [2]] [[0], [2]]
        (EstepResult [1, 1] [1, 1] [[0], [2]] 2) None
     = Inr (MstepResult (RigidTransformation [[1]] [Finite 0] (Finite 1)) (Finite 0) NanOrInf)
   \<and> Finite 0
       = np_divide
           (f_sub (Finite (tr_xp1x_of [[0], [2]] [1, 1] [[0], [2]] 2))
              (f_mul (Finite 1)
                 (Finite (trace (np_dot (np_transpose
                     (cross_covariance [[0], [2]] [1, 1] [[0], [2]] 2)) [[1]])))))
           (2 * real (shape1 [[0], [2]]))
   \<and> np_divide (Finite 3) 4 = Finite (3 / 4) \<and> (0::real) < 3 * 4"
proof -
  note r = sigma2_unguarded
    [where svd = svd_demo and source = "[[0], [2]]" and target = "[[0], [2]]"
       and ?pt1.0 = "[1, 1]" and ?p1.0 = "[1, 1]" and px = "[[1 / 2], [3 / 2]]" and n_p = 2
       and ?sigma2_p.0 = None and rot = "[[1]]" and tr = "[Finite (1 / 2)]"
       and scale = "Finite (1 / 2)" and ?sigma2.0 = "Finite (3 / 4)"
       and q = "Finite (1 + ln (3 / 4))",
     THEN conjunct1, rule_format, OF rigid_demo, THEN conjunct1]
  note r0 = sigma2_unguarded
    [where svd = svd_demo and source = "[[0], [2]]" and target = "[[0], [2]]"
       and ?pt1.0 = "[1, 1]" and ?p1.0 = "[1, 1]" and px = "[[0], [2]]" and n_p = 2
       and ?sigma2_p.0 = None and rot = "[[1]]" and tr = "[Finite 0]"
       and scale = "Finite 1" and ?sigma2.0 = "Finite 0" and q = NanOrInf,
     THEN conjunct1, rule_format, OF rigid_exact_fit, THEN conjunct1]
  note a = sigma2_unguarded
    [where solve = solve_demo and source = "[[0], [2]]" and target = "[[0], [2]]"
       and ?pt1.0 = "[1, 1]" and ?p1.0 = "[1, 1]" and px = "[[1 / 2], [3 / 2]]" and n_p = 2
       and ?sigma2_p.0 = None and b = "[[1 / 2]]" and ta = "[1 / 2]"
       and ?sigma2a.0 = "Finite (3 / 4)" and qa = "Finite (1 + ln (3 / 4))",
     THEN conjunct2, THEN conjunct1, rule_format, OF affine_demo, THEN conjunct1]
  note n = sigma2_unguarded
    [where solve = solve_demo and source = "[[0]]" and target = "[[1]]"
       and ?pt1.0 = "[1]" and ?p1.0 = "[1]" and px = "[[1]]" and n_p = 1
       and ?sigma2_p.0 = "Some 1" and g = "[[1]]" and lmd = 2
       and res = "MstepResult (NonRigidTransformation [[1]] (Array2 [[1 / 3]]))
                    (Finite (4 / 9)) (Finite (4 / 9))",
     THEN conjunct2, THEN conjunct2, THEN conjunct1, rule_format, OF nonrigid_demo_1,
     THEN conjunct1]
  have d: "np_divide (Finite 3) 4 = Finite (3 / 4)" by simp
  note e = sigma2_unguarded
    [where x = 3 and y = 4 and v = "3 / 4",
     THEN conjunct2, THEN conjunct2, THEN conjunct2, THEN conjunct2, THEN conjunct2,
     THEN conjunct1, rule_format, OF d]
  have p: "(0::real) < 3 * 4" using e by simp
  show ?thesis
    using r r0 a n d p rigid_demo rigid_exact_fit affine_demo nonrigid_demo_1
    by (intro conjI) assumption+
qed

section \<open>The rotation of the rigid step\<close>

lemma sum_list_map2:
  "length x = length y \<Longrightarrow> sum_list (map2 f x y) = (\<Sum>k<length x. f (x ! k) (y ! k))"
proof -
  assume l: "length x = length y"
  have "sum_list (map2 f x y) = (\<Sum>k = 0..<length (map2 f x y). map2 f x y ! k)"
    by (rule sum_list_sum_nth)
  also have "\<dots> = (\<Sum>k = 0..<length x. f (x ! k) (y ! k))"
    by (rule sum.cong) (use l in auto)
  finally show ?thesis by (simp add: lessThan_atLeast0)
qed

lemma np_dot_nth:
  assumes a: "is_mat n m a" and b: "is_mat m p b" and m: "0 < m" and i: "i < n" and j: "j < p"
  shows "np_dot a b ! i ! j = (\<Sum>k<m. a ! i ! k * b ! k ! j)"
proof -
  have s: "shape1 b = p" using b m by (rule is_mat_shape1)
  have la: "length (a ! i) = m" using a i by (rule is_mat_nth)
  have lb: "length b = m" using b by (rule is_mat_length)
  have "np_dot a b ! i ! j = vdot (a ! i) (col j b)"
    using i j a by (simp add: np_dot_def s is_mat_def)
  also have "\<dots> = (\<Sum>k<m. a ! i ! k * col j b ! k)"
    unfolding vdot_def using sum_list_map2 [of "a ! i" "col j b" "(*)"] la lb
    by (simp add: col_def)
  also have "\<dots> = (\<Sum>k<m. a ! i ! k * b ! k ! j)"
    by (rule sum.cong) (use lb in \<open>auto simp: col_def\<close>)
  finally show ?thesis .
qed

lemma is_mat_dot:
  "is_mat n m a \<Longrightarrow> is_mat m p b \<Longrightarrow> 0 < m \<Longrightarrow> is_mat n p (np_dot a b)"
  by (simp add: is_mat_def np_dot_def list_all_length is_mat_shape1 [unfolded is_mat_def])

lemma np_transpose_nth:
  assumes "is_mat n m a" "0 < n" "i < m" "j < n"
  shows "np_transpose a ! i ! j = a ! j ! i"
proof -
  have "shape1 a = m" using assms(1,2) by (rule is_mat_shape1)
  moreover have "length a = n" using assms(1) by (rule is_mat_length)
  ultimately show ?thesis using assms(3,4) by (simp add: np_transpose_def col_def)
qed

lemma np_identity_nth: "i < n \<Longrightarrow> j < n \<Longrightarrow> np_identity n ! i ! j = ident i j"
  by (simp add: np_identity_def ident_def)

lemma is_mat_identity: "is_mat n n (np_identity n)"
  by (simp add: is_mat_def np_identity_def list_all_length)

lemma with_rows_nth:
  "is_mat n m u \<Longrightarrow> length c = m \<Longrightarrow> i < n \<Longrightarrow> j < m \<Longrightarrow>
   with_rows f u c ! i ! j = f (u ! i ! j) (c ! j)"
  by (simp add: with_rows_def is_mat_def list_all_length)

lemma is_mat_with_rows:
  "is_mat n m u \<Longrightarrow> length c = m \<Longrightarrow> is_mat n m (with_rows f u c)"
  by (simp add: with_rows_def is_mat_def list_all_length)

lemma mat_eqI:
  assumes "is_mat n m a" "is_mat n m b" "\<And>i j. i < n \<Longrightarrow> j < m \<Longrightarrow> a ! i ! j = b ! i ! j"
  shows "a = b"
proof (rule nth_equalityI)
  show "length a = length b" using assms by (simp add: is_mat_def)
next
  fix i assume "i < length a"
  then have i: "i < n" using assms(1) by (simp add: is_mat_def)
  show "a ! i = b ! i"
    by (rule nth_equalityI) (use i assms in \<open>auto simp: is_mat_nth\<close>)
qed

lemma orthogonal_entries:
  assumes "orthogonal n m" "0 < n"
  shows "orthogonal_fun n (entries m)"
  unfolding orthogonal_fun_def mmul_def
proof (intro allI impI)
  fix i j assume i: "i < n" and j: "j < n"
  have m: "is_mat n n m" and e: "np_dot m (np_transpose m) = np_identity n"
    using assms by (simp_all add: orthogonal_def)
  have t: "is_mat n n (np_transpose m)" using m assms(2) by (rule is_mat_transpose)
  have "(\<Sum>k<n. entries m i k * entries m j k) = (\<Sum>k<n. m ! i ! k * np_transpose m ! k ! j)"
    by (rule sum.cong) (use m assms(2) j in \<open>auto simp: entries_def np_transpose_nth\<close>)
  also have "\<dots> = np_dot m (np_transpose m) ! i ! j"
    by (rule np_dot_nth [OF m t assms(2) i j, symmetric])
  also have "\<dots> = ident i j" using i j by (simp add: e np_identity_nth)
  finally show "(\<Sum>k<n. entries m i k * entries m j k) = ident i j" .
qed

lemma det_dot:
  assumes a: "is_mat n n a" and b: "is_mat n n b" and n: "0 < n"
  shows "linalg_det (np_dot a b) = det_fun n (mmul n (entries a) (entries b))"
proof -
  have "length (np_dot a b) = n" using a by (simp add: np_dot_def is_mat_def)
  moreover have "det_fun n (entries (np_dot a b)) = det_fun n (mmul n (entries a) (entries b))"
    by (rule det_cong) (simp add: entries_def mmul_def np_dot_nth [OF a b n])
  ultimately show ?thesis by (simp add: linalg_det_def)
qed

lemma corrected_rotation_proper:
  assumes u: "orthogonal n u" and vh: "orthogonal n vh" and n: "0 < n"
  shows "np_dot (corrected_rotation n u vh) (np_transpose (corrected_rotation n u vh))
           = np_identity n"
    and "linalg_det (corrected_rotation n u vh) = 1"
    and "is_mat n n (corrected_rotation n u vh)"
    and "linalg_det (np_dot u vh) = 1 \<or> linalg_det (np_dot u vh) = - 1"
proof -
  let ?d = "linalg_det (np_dot u vh)"
  let ?c = "(replicate n 1)[n - 1 := ?d]"
  let ?w = "with_rows (*) u ?c"
  let ?rot = "corrected_rotation n u vh"
  let ?U = "entries u" and ?V = "entries vh"
  let ?W = "\<lambda>i j. ?U i j * (if j = n - 1 then ?d else 1)"
  let ?R = "mmul n ?W ?V"
  have mu: "is_mat n n u" and mv: "is_mat n n vh" using u vh by (simp_all add: orthogonal_def)
  have lc: "length ?c = n" by simp
  have mw: "is_mat n n ?w" using mu lc by (rule is_mat_with_rows)
  have mr: "is_mat n n ?rot" unfolding corrected_rotation_def using mw mv n by (rule is_mat_dot)
  have d: "?d = det_fun n (mmul n ?U ?V)" using mu mv n by (rule det_dot)
  have w: "?w ! i ! j = ?W i j" if "i < n" "j < n" for i j
  proof -
    have "?w ! i ! j = u ! i ! j * ?c ! j" by (rule with_rows_nth [OF mu lc that])
    moreover have "?c ! j = (if j = n - 1 then ?d else 1)"
      using that by (simp add: nth_list_update)
    ultimately show ?thesis by (simp add: entries_def)
  qed
  have r: "?rot ! i ! j = ?R i j" if "i < n" "j < n" for i j
    unfolding corrected_rotation_def np_dot_nth [OF mw mv n that] mmul_def
    by (rule sum.cong) (use that w in \<open>auto simp: entries_def\<close>)
  note P = proper_rotation_fun [OF orthogonal_entries [OF u n] orthogonal_entries [OF vh n] n d refl]
  have "linalg_det ?rot = det_fun n (entries ?rot)"
    using mr by (simp add: linalg_det_def is_mat_def)
  also have "\<dots> = det_fun n ?R" by (rule det_cong) (simp add: entries_def r)
  also have "\<dots> = 1" by (rule P(1))
  finally show "linalg_det ?rot = 1" .
  have mt: "is_mat n n (np_transpose ?rot)" using mr n by (rule is_mat_transpose)
  show "np_dot ?rot (np_transpose ?rot) = np_identity n"
  proof (rule mat_eqI [OF is_mat_dot [OF mr mt n] is_mat_identity])
    fix i j assume i: "i < n" and j: "j < n"
    have "np_dot ?rot (np_transpose ?rot) ! i ! j = (\<Sum>k<n. ?rot ! i ! k * np_transpose ?rot ! k ! j)"
      by (rule np_dot_nth [OF mr mt n i j])
    also have "\<dots> = (\<Sum>k<n. ?R i k * ?R j k)"
      by (rule sum.cong) (use i j r mr n in \<open>auto simp: np_transpose_nth\<close>)
    also have "\<dots> = ident i j" using i j by (rule P(2))
    finally show "np_dot ?rot (np_transpose ?rot) ! i ! j = np_identity n ! i ! j"
      using i j by (simp add: np_identity_nth)
  qed
  show "is_mat n n ?rot" by (rule mr)
  have "(det_fun n ?U)\<^sup>2 = 1" "(det_fun n ?V)\<^sup>2 = 1"
    using orthogonal_entries [OF u n] orthogonal_entries [OF vh n]
    by (simp_all add: det_orthogonal)
  then have "(det_fun n ?U = 1 \<or> det_fun n ?U = - 1) \<and> (det_fun n ?V = 1 \<or> det_fun n ?V = - 1)"
    by (simp add: power2_eq_1_iff)
  then show "?d = 1 \<or> ?d = - 1" unfolding d det_mmul by auto
qed

text \<open>
  C1. Whenever the rigid maximization step returns a result (it returns one
  also when the scale, the variance or the objective it computes is no real
  number), and the two factors \<open>u\<close> and \<open>vh\<close> that the singular value
  decomposition returned for the cross-covariance matrix of the step are
  orthogonal \<open>D \<times> D\<close> matrices, then the rotation of the result is
  \<open>u diag(1, \<dots>, 1, det (u vh)) vh\<close>, the determinant \<open>det (u vh)\<close> is 1 or -1
  (its own sign), and the rotation \<open>R\<close> satisfies \<open>R R\<^sup>T = I\<close> and \<open>det R = 1\<close>,
  also when \<open>det (u vh) = -1\<close>.
\<close>

theorem rigid_rotation_proper:
  assumes step: "rigid_maximization_step svd source target (EstepResult pt1 p1 px n_p) sigma2_p
                   = Inr (MstepResult (RigidTransformation rot t scale) sigma2 q)"
    and dec: "svd (cross_covariance source p1 px n_p) = Inr (u, s, vh)"
    and u: "orthogonal (shape1 source) u" and vh: "orthogonal (shape1 source) vh"
  shows "rot = np_dot (with_rows (*) u
                 ((replicate (shape1 source) 1)
                    [shape1 source - 1 := linalg_det (np_dot u vh)])) vh
       \<and> (linalg_det (np_dot u vh) = 1 \<or> linalg_det (np_dot u vh) = - 1)
       \<and> np_dot rot (np_transpose rot) = np_identity (shape1 source)
       \<and> linalg_det rot = 1"
proof -
  have a: "cross_covariance source p1 px n_p
      = mat_sub (np_dot (np_transpose px)
                   (with_rows (-) source
                      (map (\<lambda>s. s / n_p) (mat_vec (np_transpose source) p1))))
                (outer (map (\<lambda>s. s / n_p) (sum_axis0 px))
                   (vec_mat p1
                      (with_rows (-) source
                         (map (\<lambda>s. s / n_p) (mat_vec (np_transpose source) p1)))))"
    by (simp add: cross_covariance_def centroid_x_def centroid_y_def Let_def)
  from step dec [unfolded a]
  have n: "0 < shape1 source" and r: "rot = corrected_rotation (shape1 source) u vh"
    by (auto simp: rigid_maximization_step_def Let_def and_then_def corrected_rotation_def
          split: if_splits)
  show ?thesis
    using corrected_rotation_proper [OF u vh n] r by (simp add: corrected_rotation_def)
qed

lemma det_2: "linalg_det [[a, b], [c, d]] = a * d - b * c"
  by (simp add: linalg_det_def entries_def skip_def)

lemma mirrored_cross_covariance:
  "cross_covariance [[1, 0], [- 1, 0], [0, 1], [0, - 1]] [1, 1, 1, 1]
     [[- 1, 0], [1, 0], [0, 1 / 2], [0, - 1 / 2]] 4 = [[- 2, 0], [0, 1]]"
  by (simp add: cross_covariance_def centroid_x_def centroid_y_def np_defs Let_def)

lemma mirrored_svd:
  "svd_demo [[- 2, 0], [0, 1]] = Inr ([[- 1, 0], [0, 1]], [2, 1], [[1, 0], [0, 1]])"
  by (simp add: svd_demo_def diagonal_def is_mat_def np_diag_def np_identity_def)

lemma mirrored_step:
  "rigid_maximization_step svd_demo [[1, 0], [- 1, 0], [0, 1], [0, - 1]]
     [[- 2, 0], [2, 0], [0, 1], [0, - 1]]
     (EstepResult [1, 1, 1, 1] [1, 1, 1, 1] [[- 1, 0], [1, 0], [0, 1 / 2], [0, - 1 / 2]] 4) None
     = Inr (MstepResult
              (RigidTransformation [[- 1, 0], [0, - 1]] [Finite 0, Finite 0] (Finite (1 / 4)))
              (Finite (39 / 32)) (Finite (4 + 4 * ln (39 / 32))))"
proof -
  have c: "mat_sub (np_dot (np_transpose [[- 1, 0], [1, 0], [0, 1 / 2], [0, - 1 / 2]])
                   (with_rows (-) [[1, 0], [- 1, 0], [0, 1], [0, - 1]]
                      (map (\<lambda>s. s / 4) (mat_vec (np_transpose [[1, 0], [- 1, 0], [0, 1], [0, - 1]]) [1, 1, 1, 1]))))
                (outer (map (\<lambda>s. s / 4) (sum_axis0 [[- 1, 0], [1, 0], [0, 1 / 2], [0, - 1 / 2]]))
                   (vec_mat [1, 1, 1, 1]
                      (with_rows (-) [[1, 0], [- 1, 0], [0, 1], [0, - 1]]
                         (map (\<lambda>s. s / 4) (mat_vec (np_transpose [[1, 0], [- 1, 0], [0, 1], [0, - 1]]) [1, 1, 1, 1])))))
      = [[- 2, 0], [0, 1]]"
    by (simp add: np_defs)
  show ?thesis
    unfolding rigid_maximization_step_def estep_result.case Let_def c mirrored_svd
    by (simp add: np_defs power2_eq_square det_2)
qed

lemma exact_fit_svd:
  "svd_demo (cross_covariance [[0], [2]] [1, 1] [[0], [2]] 2) = Inr ([[1]], [2], [[1]])"
  by (simp add: cross_covariance_def centroid_x_def centroid_y_def np_defs Let_def demo_defs)

theorem rigid_rotation_proper_witness:
  "rigid_maximization_step svd_demo [[1, 0], [- 1, 0], [0, 1], [0, - 1]]
     [[- 2, 0], [2, 0], [0, 1], [0, - 1]]
     (EstepResult [1, 1, 1, 1] [1, 1, 1, 1] [[- 1, 0], [1, 0], [0, 1 / 2], [0, - 1 / 2]] 4) None
     = Inr (MstepResult
              (RigidTransformation [[- 1, 0], [0, - 1]] [Finite 0, Finite 0] (Finite (1 / 4)))
              (Finite (39 / 32)) (Finite (4 + 4 * ln (39 / 32))))
   \<and> svd_demo (cross_covariance [[1, 0], [- 1, 0], [0, 1], [0, - 1]] [1, 1, 1, 1]
       [[- 1, 0], [1, 0], [0, 1 / 2], [0, - 1 / 2]] 4)
     = Inr ([[- 1, 0], [0, 1]], [2, 1], [[1, 0], [0, 1]])
   \<and> orthogonal 2 [[- 1, 0], [0, 1]] \<and> orthogonal 2 [[1, 0], [0, 1]]
   \<and> linalg_det (np_dot [[- 1, 0], [0, 1]] [[1, 0], [0, 1]]) = - 1
   \<and> np_dot [[- 1, 0], [0, - 1]] (np_transpose [[- 1, 0], [0, - 1]]) = np_identity 2
   \<and> linalg_det [[- 1, 0], [0, - 1]] = 1
   \<and> rigid_maximization_step svd_demo [[0], [2]] [[0], [2]]
        (EstepResult [1, 1] [1, 1] [[0], [2]] 2) None
     = Inr (MstepResult (RigidTransformation [[1]] [Finite 0] (Finite 1)) (Finite 0) NanOrInf)
   \<and> svd_demo (cross_covariance [[0], [2]] [1, 1] [[0], [2]] 2) = Inr ([[1]], [2], [[1]])
   \<and> orthogonal 1 [[1]]
   \<and> np_dot [[1]] (np_transpose [[1]]) = np_identity 1
   \<and> linalg_det [[1]] = 1"
proof -
  have dec: "svd_demo (cross_covariance [[1, 0], [- 1, 0], [0, 1], [0, - 1]] [1, 1, 1, 1]
       [[- 1, 0], [1, 0], [0, 1 / 2], [0, - 1 / 2]] 4)
     = Inr ([[- 1, 0], [0, 1]], [2, 1], [[1, 0], [0, 1]])"
    by (simp only: mirrored_cross_covariance mirrored_svd)
  have s: "shape1 [[1, 0], [- 1, 0], [0, 1], [0, - 1::real]] = 2" by (simp add: shape1_def)
  have s1: "shape1 [[0], [2::real]] = 1" by (simp add: shape1_def)
  have o: "orthogonal 2 [[- 1, 0], [0, 1]]" "orthogonal 2 [[1, 0], [0, 1]]"
    by (simp_all add: orthogonal_def is_mat_def np_defs eval_nat_numeral)
  have o1: "orthogonal 1 [[1]]"
    by (simp add: orthogonal_def is_mat_def np_defs)
  have d: "linalg_det (np_dot [[- 1, 0], [0, 1]] [[1, 0], [0, 1]]) = - 1"
    by (simp add: np_defs det_2)
  note t = rigid_rotation_proper [OF mirrored_step dec, unfolded s, OF o]
  note t1 = rigid_rotation_proper [OF rigid_exact_fit exact_fit_svd, unfolded s1, OF o1 o1]
  from t have r2: "np_dot [[- 1, 0], [0, - 1]] (np_transpose [[- 1, 0], [0, - 1]]) = np_identity 2"
    "linalg_det [[- 1, 0], [0, - 1]] = 1"
    by blast+
  from t1 have r1: "np_dot [[1]] (np_transpose [[1]]) = np_identity 1" "linalg_det [[1]] = 1"
    by blast+
  show ?thesis
    using r2 r1 dec o o1 d mirrored_step rigid_exact_fit exact_fit_svd by blast
qed

end
